theory Spec2Isabelle
  imports Complex_Main
begin

unbundle bit_operations_syntax

section \<open>The Fastino driver (artiq/coredevice/fastino.py)\<close>

text \<open>
  The driver is Python, read with the semantics of the Python interpreter and of numpy.
  Its integers are modelled as \<open>int\<close>. Python's \<open>|\<close>, \<open>&\<close>, \<open><<\<close> and \<open>>>\<close> on
  integers are \<open>OR\<close>, \<open>AND\<close>, \<open>push_bit\<close> and \<open>drop_bit\<close> on \<open>int\<close>; \<open>//\<close> and
  \<open>%\<close> are \<open>div\<close> and \<open>mod\<close>. Every \<open>raise\<close>, every failing \<open>assert\<close>, every
  out-of-range list index and every exception of a built-in is a value \<open>Inl e\<close>.
\<close>

subsection \<open>Errors, the RTIO log and the device object\<close>

datatype error =
    ValueError string
  | IndexError
  | AssertionError
  | NotImplementedError
  | OverflowError

text \<open>
  One entry of the RTIO output log: \<open>rtio_output(target, data)\<close> or
  \<open>rtio_output_wide(target, data)\<close>.
\<close>

datatype rtio_event =
    Output int int
  | OutputWide int "int list"

type_synonym rtio = "rtio_event list"

text \<open>
  A kernel method runs on the log of the writes issued so far and gives back its
  result (or the exception it raised) and the log afterwards.
\<close>

type_synonym 'a kernel = "rtio \<Rightarrow> (error + 'a) \<times> rtio"

text \<open>
  The numpy type \<open>int32\<close>. Arithmetic and shifts on \<open>int32\<close> values wrap around, and
  \<open>int32(x)\<close> of a value that is an \<open>int32\<close> already, a boolean or a constant in range
  keeps it: \<open>int32 x\<close> is the 32-bit two's complement value with the bits of \<open>x\<close>.
  Converting a Python integer that is outside the range raises OverflowError:
  \<open>int32_of_int\<close> is \<open>int32(n)\<close> for the integer that the built-in \<open>round\<close> returns.
\<close>

definition int32 :: "int \<Rightarrow> int" where
  "int32 x = signed_take_bit 31 x"

definition int32_of_int :: "int \<Rightarrow> error + int" where
  "int32_of_int n = (if - (2 ^ 31) \<le> n \<and> n < 2 ^ 31 then Inr n else Inl OverflowError)"

record fastino =
  channel :: int
  width :: int
  t_frame :: int

text \<open>
  \<open>Fastino.__init__(dmgr, channel, core_device, log2_width)\<close>. The shift count
  \<open>log2_width\<close> is a natural number (the documentation allows 0 to 5).
\<close>

definition Fastino_init :: "int \<Rightarrow> nat \<Rightarrow> fastino" where
  "Fastino_init chan log2_width =
     \<lparr>channel = push_bit 8 chan,
      width = push_bit log2_width 1,
      t_frame = 14 * 7 * 4\<rparr>"

text \<open>
  Modelled from the spec: the transport primitives \<open>rtio_output\<close> and
  \<open>rtio_output_wide\<close> of \<open>artiq.coredevice.rtio\<close> are not part of the source file;
  following section 6 of the specification (\<open>write_narrow\<close>, \<open>write_wide\<close>) each issues
  one write, recorded at the end of the log, and does not fail.
\<close>

definition rtio_output :: "int \<Rightarrow> int \<Rightarrow> unit kernel" where
  "rtio_output target data s = (Inr (), s @ [Output target data])"

definition rtio_output_wide :: "int \<Rightarrow> int list \<Rightarrow> unit kernel" where
  "rtio_output_wide target data s = (Inr (), s @ [OutputWide target data])"

subsection \<open>Register access\<close>

definition write_reg :: "fastino \<Rightarrow> int \<Rightarrow> int \<Rightarrow> unit kernel" where
  "write_reg self addr data = rtio_output (channel self OR addr) data"

definition read :: "fastino \<Rightarrow> int \<Rightarrow> int kernel" where
  "read self addr s = (Inl NotImplementedError, s)"

definition set_dac_mu :: "fastino \<Rightarrow> int \<Rightarrow> int \<Rightarrow> unit kernel" where
  "set_dac_mu self dac data = write_reg self dac data"

definition set_group_mu :: "fastino \<Rightarrow> int \<Rightarrow> int list \<Rightarrow> unit kernel" where
  "set_group_mu self dac data s =
     (if dac AND (width self - 1) \<noteq> 0
      then (Inl (ValueError ''Group index LSBs must be zero''), s)
      else rtio_output_wide (channel self OR dac) data s)"

subsection \<open>Voltage conversion\<close>

text \<open>
  The floating-point arithmetic of the host is not part of the source: the conversion
  \<open>float(n)\<close>, the literal \<open>10.\<close>, division and multiplication, each rounding its
  result to a float. They are parameters of the model, over any carrier \<open>'f\<close> of
  floating-point values; \<open>classify\<close> tells what a float is: a finite number, an
  infinity or a NaN.
\<close>

datatype float_class = Finite rat | Infinite | NaN

record 'f host_float =
  float_of :: "int \<Rightarrow> 'f"
  ten :: "'f"
  fdiv :: "'f \<Rightarrow> 'f \<Rightarrow> 'f"
  fmul :: "'f \<Rightarrow> 'f \<Rightarrow> 'f"
  classify :: "'f \<Rightarrow> float_class"

text \<open>
  Python's built-in \<open>round(x)\<close> of a float, with one argument: the integer nearest to
  \<open>x\<close>, the even one when two are equally near (\<open>round(0.5) = 0\<close>,
  \<open>round(1.5) = 2\<close>, \<open>round(2.5) = 2\<close>). It raises ValueError for a NaN and
  OverflowError for an infinity.
\<close>

definition round_half_even :: "rat \<Rightarrow> int" where
  "round_half_even x =
     (let n = \<lfloor>x\<rfloor>; d = x - of_int n
      in if d < 1 / 2 then n
         else if 1 / 2 < d then n + 1
         else if even n then n else n + 1)"

definition py_round :: "'f host_float \<Rightarrow> 'f \<Rightarrow> error + int" where
  "py_round fp x =
     (case classify fp x of
        Finite q \<Rightarrow> Inr (round_half_even q)
      | Infinite \<Rightarrow> Inl OverflowError
      | NaN \<Rightarrow> Inl (ValueError ''cannot convert float NaN to integer''))"

text \<open>
  \<open>voltage_to_mu\<close>: the sum \<open>int32(...) + int32(0x8000)\<close> is a sum of two \<open>int32\<close>
  values and wraps around.
\<close>

definition voltage_to_mu :: "'f host_float \<Rightarrow> 'f \<Rightarrow> error + int" where
  "voltage_to_mu fp voltage =
     (case py_round fp (fmul fp (fdiv fp (float_of fp 0x8000) (ten fp)) voltage) of
        Inl e \<Rightarrow> Inl e
      | Inr r \<Rightarrow>
         (case int32_of_int r of
            Inl e \<Rightarrow> Inl e
          | Inr r32 \<Rightarrow>
             (let data = int32 (r32 + int32 0x8000)
              in if data < 0 \<or> data > 0xffff
                 then Inl (ValueError ''DAC voltage out of bounds'')
                 else Inr data)))"

text \<open>Python list indexing with a non-negative index: out of range raises IndexError.\<close>

definition getitem :: "'a list \<Rightarrow> nat \<Rightarrow> error + 'a" where
  "getitem xs i = (if i < length xs then Inr (xs ! i) else Inl IndexError)"

definition setitem :: "'a list \<Rightarrow> nat \<Rightarrow> 'a \<Rightarrow> error + 'a list" where
  "setitem xs i x = (if i < length xs then Inr (xs[i := x]) else Inl IndexError)"

text \<open>
  The body of the loop of \<open>voltage_group_to_mu\<close> at index \<open>i\<close>; the list \<open>data\<close>,
  which the source updates in place, is returned updated.
\<close>

definition voltage_group_step ::
    "'f host_float \<Rightarrow> 'f list \<Rightarrow> nat \<Rightarrow> int list \<Rightarrow> error + int list" where
  "voltage_group_step fp voltage i data =
     (case getitem voltage i of
        Inl e \<Rightarrow> Inl e
      | Inr x \<Rightarrow>
         (case voltage_to_mu fp x of
            Inl e \<Rightarrow> Inl e
          | Inr v \<Rightarrow>
             (case (if i AND 1 \<noteq> 0
                    then (case getitem data (i div 2) of
                            Inl e \<Rightarrow> Inl e
                          | Inr d \<Rightarrow> Inr (d OR push_bit 16 v))
                    else Inr v) of
                Inl e \<Rightarrow> Inl e
              | Inr v' \<Rightarrow> setitem data (i div 2) (int32 v'))))"

primrec voltage_group_loop ::
    "'f host_float \<Rightarrow> 'f list \<Rightarrow> nat list \<Rightarrow> int list \<Rightarrow> error + int list" where
  "voltage_group_loop fp voltage [] data = Inr data"
| "voltage_group_loop fp voltage (i # is) data =
     (case voltage_group_step fp voltage i data of
        Inl e \<Rightarrow> Inl e
      | Inr data' \<Rightarrow> voltage_group_loop fp voltage is data')"

definition voltage_group_to_mu ::
    "'f host_float \<Rightarrow> 'f list \<Rightarrow> int list \<Rightarrow> error + int list" where
  "voltage_group_to_mu fp voltage data =
     voltage_group_loop fp voltage [0..<length voltage] data"

definition set_dac :: "fastino \<Rightarrow> 'f host_float \<Rightarrow> int \<Rightarrow> 'f \<Rightarrow> unit kernel" where
  "set_dac self fp dac voltage s =
     (case voltage_to_mu fp voltage of
        Inl e \<Rightarrow> (Inl e, s)
      | Inr data \<Rightarrow> write_reg self dac data s)"

definition set_group :: "fastino \<Rightarrow> 'f host_float \<Rightarrow> int \<Rightarrow> 'f list \<Rightarrow> unit kernel" where
  "set_group self fp dac voltage s =
     (let data = replicate (length voltage div 2) (int32 0)
      in case voltage_group_to_mu fp voltage data of
           Inl e \<Rightarrow> (Inl e, s)
         | Inr data' \<Rightarrow> set_group_mu self dac data' s)"

subsection \<open>Control registers\<close>

definition update :: "fastino \<Rightarrow> int \<Rightarrow> unit kernel" where
  "update self upd = write_reg self 0x20 upd"

definition set_hold :: "fastino \<Rightarrow> int \<Rightarrow> unit kernel" where
  "set_hold self hold = write_reg self 0x21 hold"

definition set_cfg :: "fastino \<Rightarrow> bool \<Rightarrow> bool \<Rightarrow> bool \<Rightarrow> bool \<Rightarrow> unit kernel" where
  "set_cfg self reset afe_power_down dac_clr clr_err =
     write_reg self 0x22
       (push_bit 0 (int32 (of_bool reset)) OR push_bit 1 (int32 (of_bool afe_power_down)) OR
        push_bit 2 (int32 (of_bool dac_clr)) OR push_bit 3 (int32 (of_bool clr_err)))"

definition set_leds :: "fastino \<Rightarrow> int \<Rightarrow> unit kernel" where
  "set_leds self leds = write_reg self 0x23 leds"

definition set_continuous :: "fastino \<Rightarrow> int \<Rightarrow> unit kernel" where
  "set_continuous self channel_mask = write_reg self 0x25 channel_mask"

definition apply_cic :: "fastino \<Rightarrow> int \<Rightarrow> unit kernel" where
  "apply_cic self channel_mask = write_reg self 0x27 channel_mask"

subsection \<open>The CIC interpolator configuration\<close>

definition stage_cic_mu :: "fastino \<Rightarrow> int \<Rightarrow> int \<Rightarrow> int \<Rightarrow> unit kernel" where
  "stage_cic_mu self rate_mantissa rate_exponent gain_exponent s =
     (if rate_mantissa < 0 \<or> rate_mantissa \<ge> push_bit 6 1
      then (Inl (ValueError ''rate_mantissa out of bounds''), s)
      else if rate_exponent < 0 \<or> rate_exponent \<ge> push_bit 4 1
      then (Inl (ValueError ''rate_exponent out of bounds''), s)
      else if gain_exponent < 0 \<or> gain_exponent \<ge> push_bit 6 1
      then (Inl (ValueError ''gain_exponent out of bounds''), s)
      else (let config = rate_mantissa OR push_bit 6 rate_exponent OR push_bit 10 gain_exponent
            in write_reg self 0x26 config s))"

text \<open>
  The first loop of \<open>stage_cic\<close>:
  \<^verbatim>\<open>while rate_mantissa > 1 << 6: rate_exponent += 1; rate_mantissa >>= 1\<close>.
  The exponents only count up from 0 and are natural numbers.
\<close>

function cic_rate_loop :: "int \<Rightarrow> nat \<Rightarrow> int \<times> nat" where
  "cic_rate_loop rate_mantissa rate_exponent =
     (if rate_mantissa > push_bit 6 1
      then cic_rate_loop (drop_bit 1 rate_mantissa) (rate_exponent + 1)
      else (rate_mantissa, rate_exponent))"
  by pat_completeness auto
termination
  by (relation "measure (\<lambda>(m, e). nat m)") (auto simp: drop_bit_eq_div)

text \<open>
  The second loop:
  \<^verbatim>\<open>while gain > 1 << gain_exponent: gain_exponent += 1\<close>.
\<close>

function cic_gain_loop :: "int \<Rightarrow> nat \<Rightarrow> nat" where
  "cic_gain_loop gain gain_exponent =
     (if gain > push_bit gain_exponent 1
      then cic_gain_loop gain (gain_exponent + 1)
      else gain_exponent)"
  by pat_completeness auto
termination
proof (relation "measure (\<lambda>(g, e). nat g - e)")
  show "wf (measure (\<lambda>(g, e). nat g - e))" by simp
next
  fix gain :: int and gain_exponent :: nat
  assume "push_bit gain_exponent 1 < gain"
  then have "(2::int) ^ gain_exponent < gain" by (simp add: push_bit_eq_mult)
  moreover have "int gain_exponent < 2 ^ gain_exponent"
    by (metis of_nat_less_two_power)
  ultimately have "int gain_exponent < gain" by linarith
  then show "((gain, gain_exponent + 1), (gain, gain_exponent)) \<in> measure (\<lambda>(g, e). nat g - e)"
    by auto
qed

declare cic_rate_loop.simps [simp del]
declare cic_gain_loop.simps [simp del]

text \<open>
  The values \<open>(rate_mantissa, rate_exponent, gain_exponent)\<close> that \<open>stage_cic\<close> has
  computed when it reaches its assertion.
\<close>

definition order :: nat where
  "order = 3"

definition stage_cic_params :: "int \<Rightarrow> int \<times> nat \<times> nat" where
  "stage_cic_params rate =
     (let (rate_mantissa, rate_exponent) = cic_rate_loop rate 0;
          gain = fold (\<lambda>i gain. gain * rate_mantissa) [0..<order] 1;
          gain_exponent = cic_gain_loop gain 0;
          gain_exponent = gain_exponent + order * rate_exponent
      in (rate_mantissa, rate_exponent, gain_exponent))"

definition stage_cic :: "fastino \<Rightarrow> int \<Rightarrow> int kernel" where
  "stage_cic self rate s =
     (if rate \<le> 0 \<or> rate > push_bit 16 1
      then (Inl (ValueError ''rate out of bounds''), s)
      else (case stage_cic_params rate of
              (rate_mantissa, rate_exponent, gain_exponent) \<Rightarrow>
                if \<not> gain_exponent \<le> order * 16
                then (Inl AssertionError, s)
                else (case stage_cic_mu self (rate_mantissa - 1) (int rate_exponent)
                             (int gain_exponent) s of
                        (Inl e, s') \<Rightarrow> (Inl e, s')
                      | (Inr u, s') \<Rightarrow> (Inr (push_bit rate_exponent rate_mantissa), s'))))"

subsection \<open>An exact instance of the floating-point primitives\<close>

text \<open>
  For evaluating the driver at concrete voltages the arithmetic is instantiated over the
  rationals, every operation exact and every value finite. The voltages used below
  give the same results in IEEE double precision: \<open>(32768/10.) * v\<close> is exactly 0,
  -32768, 32768, 0.5, 2.5 and \<open>2^32\<close> for \<open>v\<close> = 0, -10, 10, 5/32768, 25/32768 and
  1310720, and is not within 0.1 of a tie for \<open>v\<close> = 1, -1, 0.5 and 11.
\<close>

definition exact_float :: "rat host_float" where
  "exact_float =
     \<lparr>float_of = of_int, ten = 10, fdiv = (/), fmul = (*), classify = Finite\<rparr>"

text \<open>
  Modelled from the spec: the rounding that the specification names for
  \<open>round(3276.8 * voltage)\<close>, to the nearest integer with ties away from zero. The
  driver does not use it; it is what \<open>py_round\<close> is compared with.
\<close>

definition round_half_away :: "rat \<Rightarrow> int" where
  "round_half_away x = (if 0 \<le> x then \<lfloor>x + 1 / 2\<rfloor> else \<lceil>x - 1 / 2\<rceil>)"

section \<open>The interpolation rate and its gain compensation\<close>

lemma cic_rate_loop_inv:
  "1 \<le> m \<Longrightarrow> cic_rate_loop m e = (m', e') \<Longrightarrow>
     1 \<le> m' \<and> m' \<le> 64 \<and> e \<le> e' \<and> m' * 2 ^ (e' - e) \<le> m \<and> m < (m' + 1) * 2 ^ (e' - e)"
proof (induction m e rule: cic_rate_loop.induct)
  case (1 m e)
  show ?case
  proof (cases "m > 64")
    case False
    with "1.prems" show ?thesis
      by (simp add: cic_rate_loop.simps [of m e])
  next
    case True
    then have rec: "cic_rate_loop (m div 2) (e + 1) = (m', e')"
      using "1.prems"(2) by (simp add: cic_rate_loop.simps [of m e] drop_bit_eq_div)
    have "1 \<le> m div 2" using True by simp
    with rec True have ih:
      "1 \<le> m' \<and> m' \<le> 64 \<and> e + 1 \<le> e' \<and> m' * 2 ^ (e' - (e + 1)) \<le> m div 2
         \<and> m div 2 < (m' + 1) * 2 ^ (e' - (e + 1))"
      using "1.IH" by (simp add: drop_bit_eq_div)
    then have pw: "(2::int) ^ (e' - e) = 2 * 2 ^ (e' - (e + 1))"
      by (metis Suc_diff_le Suc_eq_plus1 diff_Suc_Suc power_Suc)
    define X where "X = m' * 2 ^ (e' - (e + 1))"
    define Y where "Y = (m' + 1) * 2 ^ (e' - (e + 1))"
    have a: "m' * 2 ^ (e' - e) = 2 * X" and b: "(m' + 1) * 2 ^ (e' - e) = 2 * Y"
      by (simp_all add: pw X_def Y_def)
    from ih have "X \<le> m div 2" "m div 2 < Y" by (simp_all add: X_def Y_def)
    then have "2 * X \<le> m" "m < 2 * Y" by linarith+
    with ih show ?thesis by (simp add: a b)
  qed
qed

lemma cic_rate_loop_exponent:
  "m \<le> 64 * 2 ^ k \<Longrightarrow> snd (cic_rate_loop m e) \<le> e + k"
proof (induction m e arbitrary: k rule: cic_rate_loop.induct)
  case (1 m e)
  show ?case
  proof (cases "m > 64")
    case False
    then show ?thesis by (simp add: cic_rate_loop.simps [of m e])
  next
    case True
    with "1.prems" obtain j where k: "k = Suc j"
      by (cases k) auto
    with "1.prems" have "m div 2 \<le> 64 * 2 ^ j" by simp
    with True have "snd (cic_rate_loop (drop_bit 1 m) (e + 1)) \<le> e + 1 + j"
      using "1.IH" [of j] by (simp add: drop_bit_eq_div)
    with True k show ?thesis by (simp add: cic_rate_loop.simps [of m e])
  qed
qed

lemma cic_gain_loop_bound:
  "g \<le> 2 ^ k \<Longrightarrow> e \<le> k \<Longrightarrow> cic_gain_loop g e \<le> k"
proof (induction g e rule: cic_gain_loop.induct)
  case (1 g e)
  show ?case
  proof (cases "g > 2 ^ e")
    case False
    with "1.prems" show ?thesis
      by (simp add: cic_gain_loop.simps [of g e] push_bit_eq_mult)
  next
    case True
    have "e \<noteq> k" using True "1.prems"(1) by auto
    with "1.prems" have "e + 1 \<le> k" by simp
    with True "1.prems" have "cic_gain_loop g (e + 1) \<le> k"
      using "1.IH" by (simp add: push_bit_eq_mult)
    with True show ?thesis
      by (simp add: cic_gain_loop.simps [of g e] push_bit_eq_mult)
  qed
qed

lemma cic_gain_loop_pow2:
  "e \<le> n \<Longrightarrow> cic_gain_loop (2 ^ n) e = n"
proof (induction "n - e" arbitrary: e)
  case 0
  then have "n = e" by simp
  then show ?case by (simp add: cic_gain_loop.simps [of "2 ^ e" e] push_bit_eq_mult)
next
  case (Suc d)
  then have lt: "e < n" by simp
  then have "(2::int) ^ e < 2 ^ n" by simp
  moreover have "cic_gain_loop (2 ^ n) (e + 1) = n"
    using Suc lt by simp
  ultimately show ?case
    by (simp add: cic_gain_loop.simps [of "2 ^ n" e] push_bit_eq_mult)
qed

lemma cic_rate_loop_small: "m \<le> 64 \<Longrightarrow> cic_rate_loop m e = (m, e)"
  by (simp add: cic_rate_loop.simps [of m e])

lemma cic_rate_loop_pow2: "cic_rate_loop (64 * 2 ^ j) e = (64, e + j)"
proof (induction j arbitrary: e)
  case 0
  then show ?case by (simp add: cic_rate_loop_small)
next
  case (Suc j)
  have "(1::int) \<le> 2 ^ j" by simp
  then have "(1::int) < 2 * 2 ^ j" by linarith
  then have "cic_rate_loop (64 * 2 ^ Suc j) e = cic_rate_loop (64 * 2 ^ j) (e + 1)"
    by (subst cic_rate_loop.simps) (simp add: drop_bit_eq_div)
  then show ?case using Suc [of "e + 1"] by simp
qed

lemma fold_gain: "fold (\<lambda>i gain. gain * m) [0..<order] (1::int) = m * m * m"
  by (simp add: order_def numeral_3_eq_3)


lemma cube_bound:
  assumes "1 \<le> m" "m \<le> (64::int)"
  shows "m * m * m \<le> 2 ^ 18"
proof -
  have "m * m \<le> 64 * 64" using assms by (intro mult_mono) auto
  then have "m * m * m \<le> (64 * 64) * 64" using assms by (intro mult_mono) auto
  then show ?thesis by simp
qed

lemma stage_cic_params_range:
  assumes "1 \<le> rate" "rate \<le> 65536" "stage_cic_params rate = (m, e, g)"
  shows "1 \<le> m \<and> m \<le> 64 \<and> e \<le> 10 \<and> g \<le> 48 \<and> m * 2 ^ e \<le> rate \<and> rate < (m + 1) * 2 ^ e"
proof -
  obtain m0 e0 where loop: "cic_rate_loop rate 0 = (m0, e0)"
    by (cases "cic_rate_loop rate 0")
  from assms(3) loop have m: "m = m0" and e: "e = e0"
    and g: "g = cic_gain_loop (m0 * m0 * m0) 0 + order * e0"
    by (auto simp add: stage_cic_params_def fold_gain Let_def)
  from cic_rate_loop_inv [OF assms(1) loop]
  have inv: "1 \<le> m0" "m0 \<le> 64" "m0 * 2 ^ e0 \<le> rate" "rate < (m0 + 1) * 2 ^ e0"
    by simp_all
  have "rate \<le> 64 * 2 ^ 10" using assms(2) by simp
  from cic_rate_loop_exponent [OF this, of 0] loop have e10: "e0 \<le> 10" by simp
  have "cic_gain_loop (m0 * m0 * m0) 0 \<le> 18"
    by (rule cic_gain_loop_bound [OF cube_bound [OF inv(1,2)]]) simp
  with e10 have "g \<le> 48" by (simp add: g order_def)
  with inv e10 show ?thesis by (simp add: m e)
qed

lemma push_bit_small:
  "push_bit 6 (1::int) = 64" "push_bit 4 (1::int) = 16" "push_bit 16 (1::int) = 65536"
  by (simp_all add: push_bit_eq_mult)

lemma stage_cic_in_range:
  assumes "1 \<le> rate" "rate \<le> 65536" "stage_cic_params rate = (m, e, g)"
  shows "stage_cic self rate s =
           (Inr (push_bit e m),
            s @ [Output (channel self OR 0x26)
                   ((m - 1) OR push_bit 6 (int e) OR push_bit 10 (int g))])"
proof -
  from stage_cic_params_range [OF assms]
  have r: "1 \<le> m" "m \<le> 64" "e \<le> 10" "g \<le> 48" by simp_all
  then have mu: "stage_cic_mu self (m - 1) (int e) (int g) s =
      (Inr (), s @ [Output (channel self OR 0x26)
                   ((m - 1) OR push_bit 6 (int e) OR push_bit 10 (int g))])"
    by (simp add: stage_cic_mu_def push_bit_small write_reg_def rtio_output_def)
  from assms(1,2) r(4) show ?thesis
    by (simp add: stage_cic_def push_bit_small assms(3) order_def mu)
qed

lemma stage_cic_out_of_range:
  assumes "rate \<le> 0 \<or> 65536 < rate"
  shows "stage_cic self rate s = (Inl (ValueError ''rate out of bounds''), s)"
  using assms by (auto simp add: stage_cic_def push_bit_small)

text \<open>
  Claim C1. \<open>stage_cic(rate)\<close> raises exactly when \<open>rate <= 0\<close> or
  \<open>rate > 65536\<close>, and the exception is then the ValueError "rate out of bounds",
  raised before anything is written. For every rate from 1 to 65536 it returns the
  achieved rate \<open>rate_mantissa << rate_exponent\<close>, which is at most \<open>rate\<close> and more
  than \<open>rate / 2\<close>, and the gain exponent it computes and stages is at most 48.
\<close>

theorem stage_cic_rate_bounds:
  "(isl (fst (stage_cic self rate s)) \<longleftrightarrow> rate \<le> 0 \<or> 65536 < rate) \<and>
   (isl (fst (stage_cic self rate s)) \<longrightarrow>
      stage_cic self rate s = (Inl (ValueError ''rate out of bounds''), s)) \<and>
   (1 \<le> rate \<and> rate \<le> 65536 \<longrightarrow>
      (\<exists>m e g. stage_cic_params rate = (m, e, g) \<and>
         stage_cic self rate s =
           (Inr (push_bit e m),
            s @ [Output (channel self OR 0x26)
                   ((m - 1) OR push_bit 6 (int e) OR push_bit 10 (int g))]) \<and>
         push_bit e m \<le> rate \<and>
         real_of_int rate / 2 < real_of_int (push_bit e m) \<and>
         g \<le> 48))"
proof (cases "rate \<le> 0 \<or> 65536 < rate")
  case True
  then show ?thesis using stage_cic_out_of_range [OF True, of self s] by auto
next
  case False
  then have rng: "1 \<le> rate" "rate \<le> 65536" by simp_all
  obtain m e g where p: "stage_cic_params rate = (m, e, g)"
    by (cases "stage_cic_params rate")
  note ok = stage_cic_in_range [OF rng p, of self s]
  from stage_cic_params_range [OF rng p]
  have r: "1 \<le> m" "g \<le> 48" "m * 2 ^ e \<le> rate" "rate < (m + 1) * 2 ^ e" by simp_all
  have "(m + 1) * 2 ^ e \<le> 2 * (m * 2 ^ e)"
  proof -
    have "(m + 1) * 2 ^ e \<le> (2 * m) * 2 ^ e"
      using r(1) by (intro mult_right_mono) auto
    then show ?thesis by simp
  qed
  moreover have pb: "push_bit e m = m * 2 ^ e" by (simp add: push_bit_eq_mult)
  ultimately have "rate < 2 * push_bit e m" using r(4) by linarith
  then have half: "real_of_int rate / 2 < real_of_int (push_bit e m)" by linarith
  from r(3) have le: "push_bit e m \<le> rate" by (simp add: push_bit_eq_mult)
  show ?thesis using False rng p ok le half r(2) by simp
qed

text \<open>The rate 1000 is quantised to \<open>62 << 4 = 992\<close>.\<close>

lemma stage_cic_params_1000: "stage_cic_params 1000 = (62, 4, 30)"
  by (simp add: stage_cic_params_def cic_rate_loop.simps cic_gain_loop.simps
      order_def numeral_3_eq_3 drop_bit_eq_div push_bit_eq_mult Let_def)

theorem stage_cic_rate_bounds_witness:
  "stage_cic (Fastino_init 0 0) 0 [] = (Inl (ValueError ''rate out of bounds''), []) \<and>
   stage_cic (Fastino_init 0 0) 65537 [] = (Inl (ValueError ''rate out of bounds''), []) \<and>
   stage_cic (Fastino_init 0 0) 1000 [] = (Inr 992, [Output 38 31037])"
  using stage_cic_rate_bounds [of "Fastino_init 0 0" 0 "[]"]
    stage_cic_rate_bounds [of "Fastino_init 0 0" 65537 "[]"]
    stage_cic_rate_bounds [of "Fastino_init 0 0" 1000 "[]"]
  by (simp add: stage_cic_params_1000 Fastino_init_def push_bit_eq_mult)

text \<open>
  Claim C9. For every rate from 1 to 65536 the assertion
  \<open>gain_exponent <= order*16\<close> (that is, 48) of \<open>stage_cic\<close> holds, and the values
  handed to \<open>stage_cic_mu\<close> pass its three range checks: \<open>rate_mantissa - 1\<close> lies in
  0..63, \<open>rate_exponent\<close> in 0..15 and \<open>gain_exponent\<close> in 0..63. So neither
  \<open>stage_cic_mu\<close> nor \<open>stage_cic\<close> raises there.
\<close>

theorem stage_cic_checks_unreachable:
  "1 \<le> rate \<and> rate \<le> 65536 \<longrightarrow>
     (\<exists>m e g. stage_cic_params rate = (m, e, g) \<and>
        g \<le> order * 16 \<and> order * 16 = 48 \<and>
        0 \<le> m - 1 \<and> m - 1 < push_bit 6 1 \<and>
        0 \<le> int e \<and> int e < push_bit 4 1 \<and>
        0 \<le> int g \<and> int g < push_bit 6 1 \<and>
        fst (stage_cic_mu self (m - 1) (int e) (int g) s) = Inr () \<and>
        fst (stage_cic self rate s) = Inr (push_bit e m))"
proof
  assume "1 \<le> rate \<and> rate \<le> 65536"
  then have rng: "1 \<le> rate" "rate \<le> 65536" by simp_all
  obtain m e g where p: "stage_cic_params rate = (m, e, g)"
    by (cases "stage_cic_params rate")
  from stage_cic_params_range [OF rng p]
  have r: "1 \<le> m" "m \<le> 64" "e \<le> 10" "g \<le> 48" by simp_all
  then have "fst (stage_cic_mu self (m - 1) (int e) (int g) s) = Inr ()"
    by (simp add: stage_cic_mu_def push_bit_small write_reg_def rtio_output_def)
  moreover have "fst (stage_cic self rate s) = Inr (push_bit e m)"
    by (simp add: stage_cic_in_range [OF rng p])
  ultimately show "\<exists>m e g. stage_cic_params rate = (m, e, g) \<and>
        g \<le> order * 16 \<and> order * 16 = 48 \<and>
        0 \<le> m - 1 \<and> m - 1 < push_bit 6 1 \<and>
        0 \<le> int e \<and> int e < push_bit 4 1 \<and>
        0 \<le> int g \<and> int g < push_bit 6 1 \<and>
        fst (stage_cic_mu self (m - 1) (int e) (int g) s) = Inr () \<and>
        fst (stage_cic self rate s) = Inr (push_bit e m)"
    using p r by (simp add: push_bit_small order_def)
qed

text \<open>The largest rate below the bound reaches the largest gain exponent.\<close>

lemma stage_cic_params_65535: "stage_cic_params 65535 = (63, 10, 48)"
  by (simp add: stage_cic_params_def cic_rate_loop.simps cic_gain_loop.simps
      order_def numeral_3_eq_3 drop_bit_eq_div push_bit_eq_mult Let_def)

theorem stage_cic_checks_unreachable_witness:
  "stage_cic_params 65535 = (63, 10, 48) \<and>
   fst (stage_cic_mu (Fastino_init 0 0) 62 10 48 []) = Inr () \<and>
   fst (stage_cic (Fastino_init 0 0) 65535 []) = Inr 64512"
  using stage_cic_checks_unreachable [of 65535 "Fastino_init 0 0" "[]"]
  by (simp add: stage_cic_params_65535 push_bit_eq_mult)

lemma stage_cic_params_pow2:
  "stage_cic_params (2 ^ k) = (2 ^ min k 6, k - 6, 3 * k)"
proof (cases "k \<le> 6")
  case True
  then have "(2::int) ^ k \<le> 2 ^ 6" by (intro power_increasing) auto
  then have loop: "cic_rate_loop (2 ^ k) 0 = (2 ^ k, 0)"
    by (simp add: cic_rate_loop_small)
  have "(2::int) ^ k * 2 ^ k * 2 ^ k = 2 ^ (3 * k)"
    by (simp add: power_add [symmetric] mult_2 numeral_3_eq_3)
  then show ?thesis using True
    by (simp add: stage_cic_params_def loop fold_gain cic_gain_loop_pow2 min_def)
next
  case False
  then obtain j where k: "k = 6 + j" by (metis le_add_diff_inverse nat_le_linear)
  have "(2::int) ^ k = 64 * 2 ^ j" by (simp add: k power_add)
  then have loop: "cic_rate_loop (2 ^ k) 0 = (64, j)"
    by (simp add: cic_rate_loop_pow2)
  have "(64::int) * 64 * 64 = 2 ^ 18" by simp
  then have "cic_gain_loop (64 * 64 * 64) 0 = 18"
    using cic_gain_loop_pow2 [of 0 18] by simp
  then have "stage_cic_params (2 ^ k) = (64, j, 18 + order * j)"
    by (simp add: stage_cic_params_def loop fold_gain)
  then show ?thesis by (simp add: k order_def)
qed

text \<open>
  Claim C2. For every \<open>k\<close> from 0 to 16, \<open>stage_cic(2^k)\<close> returns exactly \<open>2^k\<close> and
  computes \<open>gain_exponent = 3*k\<close> (with mantissa \<open>2^min(k,6)\<close> and exponent
  \<open>k - 6\<close>, or 0 when \<open>k\<close> is below 6). In particular \<open>stage_cic(1)\<close> returns 1 and
  stages the configuration with all three fields 0.
\<close>

theorem stage_cic_power_of_two:
  "(k \<le> 16 \<longrightarrow>
      stage_cic_params (2 ^ k) = (2 ^ min k 6, k - 6, 3 * k) \<and>
      stage_cic self (2 ^ k) s =
        (Inr (2 ^ k),
         s @ [Output (channel self OR 0x26)
                ((2 ^ min k 6 - 1) OR push_bit 6 (int (k - 6)) OR push_bit 10 (int (3 * k)))])) \<and>
   stage_cic_params 1 = (1, 0, 0) \<and>
   stage_cic self 1 s =
     (Inr 1, s @ [Output (channel self OR 0x26) (0 OR push_bit 6 0 OR push_bit 10 0)])"
proof -
  have pow: "stage_cic self (2 ^ k) s =
        (Inr (2 ^ k),
         s @ [Output (channel self OR 0x26)
                ((2 ^ min k 6 - 1) OR push_bit 6 (int (k - 6)) OR push_bit 10 (int (3 * k)))])"
    if "k \<le> 16" for k
  proof -
    have "(2::int) ^ k \<le> 2 ^ 16" using that by (intro power_increasing) auto
    then have rng: "(1::int) \<le> 2 ^ k" "(2::int) ^ k \<le> 65536" by simp_all
    have "push_bit (k - 6) ((2::int) ^ min k 6) = 2 ^ k"
      by (simp add: push_bit_eq_mult power_add [symmetric] min_def)
    then show ?thesis
      using stage_cic_in_range [OF rng stage_cic_params_pow2, of self s] by simp
  qed
  have one: "stage_cic_params 1 = (1, 0, 0)"
    using stage_cic_params_pow2 [of 0] by simp
  show ?thesis using pow [of k] pow [of 0] one stage_cic_params_pow2 [of k] by simp
qed

theorem stage_cic_power_of_two_witness:
  "stage_cic (Fastino_init 0 0) 4096 [] = (Inr 4096, [Output 38 (63 + 6 * 64 + 36 * 1024)]) \<and>
   stage_cic (Fastino_init 0 0) 1 [] = (Inr 1, [Output 38 0])"
  using stage_cic_power_of_two [of 12 "Fastino_init 0 0" "[]"]
  by (simp add: Fastino_init_def push_bit_eq_mult)

text \<open>
  What the two loops compute: the least shift that brings the rate to at most 64, and
  the least exponent whose power of two reaches the gain.
\<close>

lemma cic_rate_loop_exact:
  "cic_rate_loop m0 e0 = (m, e) \<Longrightarrow>
     e0 \<le> e \<and> m = m0 div 2 ^ (e - e0) \<and> m \<le> 64 \<and> (\<forall>k<e - e0. 64 < m0 div 2 ^ k)"
proof (induction m0 e0 rule: cic_rate_loop.induct)
  case (1 m0 e0)
  show ?case
  proof (cases "m0 > 64")
    case False
    with "1.prems" show ?thesis
      by (simp add: cic_rate_loop.simps [of m0 e0])
  next
    case True
    then have rec: "cic_rate_loop (m0 div 2) (e0 + 1) = (m, e)"
      using "1.prems" by (simp add: cic_rate_loop.simps [of m0 e0] drop_bit_eq_div)
    with True have ih: "e0 + 1 \<le> e" "m = m0 div 2 div 2 ^ (e - (e0 + 1))" "m \<le> 64"
      "\<forall>k<e - (e0 + 1). 64 < m0 div 2 div 2 ^ k"
      using "1.IH" by (simp_all add: drop_bit_eq_div)
    from ih(1) have d: "e - e0 = Suc (e - (e0 + 1))" by simp
    have shift: "m0 div 2 div 2 ^ k = m0 div 2 ^ Suc k" for k
      by (simp add: zdiv_zmult2_eq)
    have "\<forall>k<e - e0. 64 < m0 div 2 ^ k"
    proof (intro allI impI)
      fix k assume k: "k < e - e0"
      show "64 < m0 div 2 ^ k"
      proof (cases k)
        case 0
        with True show ?thesis by simp
      next
        case (Suc k')
        with k d have "k' < e - (e0 + 1)" by simp
        with ih(4) have "64 < m0 div 2 div 2 ^ k'" by blast
        then show ?thesis by (simp only: shift Suc)
      qed
    qed
    moreover have "m = m0 div 2 ^ (e - e0)"
      by (simp only: ih(2) shift d)
    ultimately show ?thesis using ih(1,3) by simp
  qed
qed

lemma cic_gain_loop_exact:
  "cic_gain_loop gain e0 = g \<Longrightarrow>
     e0 \<le> g \<and> gain \<le> 2 ^ g \<and> (g = e0 \<or> 2 ^ (g - 1) < gain)"
proof (induction gain e0 rule: cic_gain_loop.induct)
  case (1 gain e0)
  show ?case
  proof (cases "gain > 2 ^ e0")
    case False
    with "1.prems" show ?thesis
      by (simp add: cic_gain_loop.simps [of gain e0] push_bit_eq_mult)
  next
    case True
    then have rec: "cic_gain_loop gain (e0 + 1) = g"
      using "1.prems" by (simp add: cic_gain_loop.simps [of gain e0] push_bit_eq_mult)
    with True have ih: "e0 + 1 \<le> g" "gain \<le> 2 ^ g" "g = e0 + 1 \<or> 2 ^ (g - 1) < gain"
      using "1.IH" by (simp_all add: push_bit_eq_mult)
    from ih(3) True have "2 ^ (g - 1) < gain" by auto
    with ih show ?thesis by simp
  qed
qed

lemma stage_cic_params_exact:
  assumes "stage_cic_params rate = (m, e, g)"
  shows "m = rate div 2 ^ e \<and> m \<le> 64 \<and> (\<forall>k<e. 64 < rate div 2 ^ k) \<and>
         3 * e \<le> g \<and> m * m * m \<le> 2 ^ (g - 3 * e) \<and>
         (g = 3 * e \<or> 2 ^ (g - 3 * e - 1) < m * m * m)"
proof -
  obtain m0 e0 where loop: "cic_rate_loop rate 0 = (m0, e0)"
    by (cases "cic_rate_loop rate 0")
  from assms loop have m: "m = m0" and e: "e = e0"
    and g: "g = cic_gain_loop (m0 * m0 * m0) 0 + order * e0"
    by (auto simp add: stage_cic_params_def fold_gain Let_def)
  define g0 where "g0 = cic_gain_loop (m0 * m0 * m0) 0"
  from cic_gain_loop_exact [of "m0 * m0 * m0" 0 g0]
  have gl: "m0 * m0 * m0 \<le> 2 ^ g0" "g0 = 0 \<or> 2 ^ (g0 - 1) < m0 * m0 * m0"
    by (simp_all add: g0_def)
  have gg: "g = g0 + 3 * e" by (simp add: g g0_def order_def e)
  then have diff: "g - 3 * e = g0" by simp
  from cic_rate_loop_exact [OF loop]
  have rl: "m0 = rate div 2 ^ e0" "m0 \<le> 64" "\<forall>k<e0. 64 < rate div 2 ^ k" by simp_all
  from gl(2) have "g = 3 * e \<or> 2 ^ (g - 3 * e - 1) < m * m * m"
    unfolding diff m using gg by auto
  with rl gl(1) gg show ?thesis
    unfolding diff by (simp add: m e)
qed

section \<open>Converting a voltage to machine units\<close>

lemma int32_small: "0 \<le> x \<Longrightarrow> x < 2 ^ 31 \<Longrightarrow> int32 x = x"
  unfolding int32_def by (simp add: signed_take_bit_int_eq_self)

lemma int32_zero: "int32 0 = 0"
  by (simp add: int32_def)

lemma voltage_to_mu_range:
  "voltage_to_mu fp x = Inr v \<Longrightarrow> 0 \<le> v \<and> v \<le> 0xffff"
  by (auto simp add: voltage_to_mu_def Let_def split: if_splits sum.splits)

lemma int32_mu: "voltage_to_mu fp x = Inr v \<Longrightarrow> int32 v = v"
  using voltage_to_mu_range [of fp x v] by (simp add: int32_small)

lemma round_half_even_nearest:
  "\<bar>of_int (round_half_even q) - q\<bar> \<le> 1 / 2"
proof -
  have "of_int \<lfloor>q\<rfloor> \<le> q" "q < of_int \<lfloor>q\<rfloor> + 1" by linarith+
  then show ?thesis
    by (auto simp add: round_half_even_def Let_def)
qed

lemma round_half_even_tie:
  assumes "\<bar>of_int (round_half_even q) - q\<bar> = 1 / 2"
  shows "even (round_half_even q)"
proof -
  have fl: "of_int \<lfloor>q\<rfloor> \<le> q" "q < of_int \<lfloor>q\<rfloor> + 1" by linarith+
  show ?thesis
  proof (cases "q - of_int \<lfloor>q\<rfloor> = 1 / 2")
    case True
    then show ?thesis by (simp add: round_half_even_def Let_def)
  next
    case False
    with fl assms show ?thesis
      by (auto simp add: round_half_even_def Let_def split: if_splits)
  qed
qed

lemma int32_in_range: "- (2 ^ 31) \<le> x \<Longrightarrow> x < 2 ^ 31 \<Longrightarrow> int32 x = x"
  unfolding int32_def by (simp add: signed_take_bit_int_eq_self)

lemma int32_wraps_negative:
  assumes "2 ^ 31 \<le> x" "x < 2 ^ 32"
  shows "int32 x < 0"
proof -
  have "signed_take_bit 31 x \<le> x - 2 ^ Suc 31"
    using assms(1) by (intro signed_take_bit_int_less_eq) simp
  moreover have "(2::int) ^ Suc 31 = 2 ^ 32" by simp
  ultimately show ?thesis using assms(2) unfolding int32_def by linarith
qed

lemma voltage_to_mu_finite:
  assumes "classify fp (fmul fp (fdiv fp (float_of fp 0x8000) (ten fp)) v) = Finite q"
  shows "voltage_to_mu fp v =
           (if 0 \<le> round_half_even q + 32768 \<and> round_half_even q + 32768 \<le> 65535
            then Inr (round_half_even q + 32768)
            else if - (2 ^ 31) \<le> round_half_even q \<and> round_half_even q < 2 ^ 31
            then Inl (ValueError ''DAC voltage out of bounds'')
            else Inl OverflowError)"
proof -
  let ?r = "round_half_even q"
  have c: "int32 0x8000 = 0x8000" by (simp add: int32_in_range)
  show ?thesis
  proof (cases "- (2 ^ 31) \<le> ?r \<and> ?r < 2 ^ 31")
    case False
    then show ?thesis
      using assms by (auto simp add: voltage_to_mu_def py_round_def int32_of_int_def)
  next
    case True
    then have conv: "int32_of_int ?r = Inr ?r" by (simp add: int32_of_int_def)
    show ?thesis
    proof (cases "?r + 32768 < 2 ^ 31")
      case True
      with \<open>- (2 ^ 31) \<le> ?r \<and> ?r < 2 ^ 31\<close> have "int32 (?r + 32768) = ?r + 32768"
        by (intro int32_in_range) simp_all
      then show ?thesis
        using assms \<open>- (2 ^ 31) \<le> ?r \<and> ?r < 2 ^ 31\<close>
        by (auto simp add: voltage_to_mu_def py_round_def conv c Let_def)
    next
      case False
      with \<open>- (2 ^ 31) \<le> ?r \<and> ?r < 2 ^ 31\<close> have "int32 (?r + 32768) < 0"
        by (intro int32_wraps_negative) simp_all
      then show ?thesis
        using assms False \<open>- (2 ^ 31) \<le> ?r \<and> ?r < 2 ^ 31\<close>
        by (auto simp add: voltage_to_mu_def py_round_def conv c Let_def)
    qed
  qed
qed

lemma voltage_to_mu_not_finite:
  "classify fp (fmul fp (fdiv fp (float_of fp 0x8000) (ten fp)) v) = NaN \<Longrightarrow>
     voltage_to_mu fp v = Inl (ValueError ''cannot convert float NaN to integer'')"
  "classify fp (fmul fp (fdiv fp (float_of fp 0x8000) (ten fp)) v) = Infinite \<Longrightarrow>
     voltage_to_mu fp v = Inl OverflowError"
  by (simp_all add: voltage_to_mu_def py_round_def)

text \<open>
  Claim C5, as amended. Let \<open>x\<close> be the float product \<open>(32768/10.) * v\<close>. When
  \<open>x\<close> is finite, \<open>voltage_to_mu(v)\<close> rounds it to the nearest integer \<open>r\<close>, a tie
  going to the even integer (Python's \<open>round\<close>, not away from zero), and returns
  \<open>r + 32768\<close> exactly when that lies in 0..65535. Otherwise it raises, never
  clamping or wrapping: the ValueError "DAC voltage out of bounds", or OverflowError
  when \<open>r\<close> does not fit \<open>int32\<close>. A NaN or an infinite product raises as well.
  A product of 0 (\<open>v = 0\<close>) gives 0x8000 and a product of -32768 (\<open>v = -10.0\<close>)
  gives 0.
\<close>

theorem voltage_to_mu_rounding:
  "(classify fp (fmul fp (fdiv fp (float_of fp 0x8000) (ten fp)) v) = Finite q \<longrightarrow>
      \<bar>of_int (round_half_even q) - q\<bar> \<le> 1 / 2 \<and>
      (\<bar>of_int (round_half_even q) - q\<bar> = 1 / 2 \<longrightarrow> even (round_half_even q)) \<and>
      (0 \<le> round_half_even q + 32768 \<and> round_half_even q + 32768 \<le> 65535 \<longrightarrow>
         voltage_to_mu fp v = Inr (round_half_even q + 32768)) \<and>
      (round_half_even q + 32768 < 0 \<or> 65535 < round_half_even q + 32768 \<longrightarrow>
         voltage_to_mu fp v =
           Inl (if - (2 ^ 31) \<le> round_half_even q \<and> round_half_even q < 2 ^ 31
                then ValueError ''DAC voltage out of bounds'' else OverflowError))) \<and>
   (classify fp (fmul fp (fdiv fp (float_of fp 0x8000) (ten fp)) v) = NaN \<longrightarrow>
      voltage_to_mu fp v = Inl (ValueError ''cannot convert float NaN to integer'')) \<and>
   (classify fp (fmul fp (fdiv fp (float_of fp 0x8000) (ten fp)) v) = Infinite \<longrightarrow>
      voltage_to_mu fp v = Inl OverflowError) \<and>
   (voltage_to_mu fp v = Inr d \<longrightarrow> 0 \<le> d \<and> d \<le> 65535) \<and>
   (classify fp (fmul fp (fdiv fp (float_of fp 0x8000) (ten fp)) v) = Finite 0 \<longrightarrow>
      voltage_to_mu fp v = Inr 0x8000) \<and>
   (classify fp (fmul fp (fdiv fp (float_of fp 0x8000) (ten fp)) v) = Finite (- 32768) \<longrightarrow>
      voltage_to_mu fp v = Inr 0)"
proof -
  let ?x = "fmul fp (fdiv fp (float_of fp 0x8000) (ten fp)) v"
  have fin: "voltage_to_mu fp v = Inr (round_half_even q + 32768)"
    if "classify fp ?x = Finite q" "0 \<le> round_half_even q + 32768"
      "round_half_even q + 32768 \<le> 65535" for q
    using that by (simp add: voltage_to_mu_finite)
  have out: "voltage_to_mu fp v =
           Inl (if - (2 ^ 31) \<le> round_half_even q \<and> round_half_even q < 2 ^ 31
                then ValueError ''DAC voltage out of bounds'' else OverflowError)"
    if "classify fp ?x = Finite q"
      "round_half_even q + 32768 < 0 \<or> 65535 < round_half_even q + 32768" for q
    using that by (auto simp add: voltage_to_mu_finite)
  have r0: "round_half_even 0 = 0" by (simp add: round_half_even_def)
  have rm: "round_half_even (- 32768) = - 32768" by (simp add: round_half_even_def)
  have z: "voltage_to_mu fp v = Inr 0x8000" if "classify fp ?x = Finite 0"
    using fin [OF that] by (simp add: r0)
  have m: "voltage_to_mu fp v = Inr 0" if "classify fp ?x = Finite (- 32768)"
    using fin [OF that] by (simp add: rm)
  show ?thesis
    using fin [of q] out [of q] z m round_half_even_nearest [of q] round_half_even_tie [of q]
      voltage_to_mu_not_finite [of fp v] voltage_to_mu_range [of fp v d]
    by blast
qed

theorem voltage_to_mu_rounding_witness:
  "voltage_to_mu exact_float 0 = Inr 0x8000 \<and>
   voltage_to_mu exact_float (- 10) = Inr 0 \<and>
   voltage_to_mu exact_float (5 / 32768) = Inr 32768 \<and>
   voltage_to_mu exact_float (25 / 32768) = Inr (2 + 32768) \<and>
   voltage_to_mu exact_float 10 = Inl (ValueError ''DAC voltage out of bounds'') \<and>
   voltage_to_mu exact_float 1310720 = Inl OverflowError"
proof -
  have c0: "classify exact_float
      (fmul exact_float (fdiv exact_float (float_of exact_float 0x8000) (ten exact_float)) 0)
      = Finite 0" by code_simp
  have c1: "classify exact_float
      (fmul exact_float (fdiv exact_float (float_of exact_float 0x8000) (ten exact_float)) (- 10))
      = Finite (- 32768)" by code_simp
  have c2: "classify exact_float
      (fmul exact_float (fdiv exact_float (float_of exact_float 0x8000) (ten exact_float))
         (5 / 32768)) = Finite (1 / 2)" by code_simp
  have c3: "classify exact_float
      (fmul exact_float (fdiv exact_float (float_of exact_float 0x8000) (ten exact_float))
         (25 / 32768)) = Finite (5 / 2)" by code_simp
  have c4: "classify exact_float
      (fmul exact_float (fdiv exact_float (float_of exact_float 0x8000) (ten exact_float)) 10)
      = Finite 32768" by code_simp
  have c5: "classify exact_float
      (fmul exact_float (fdiv exact_float (float_of exact_float 0x8000) (ten exact_float))
         1310720) = Finite 4294967296" by code_simp
  have r2: "round_half_even (1 / 2) = 0" by code_simp
  have r3: "round_half_even (5 / 2) = 2" by code_simp
  have r4: "round_half_even 32768 = 32768" by code_simp
  have r5: "round_half_even 4294967296 = 4294967296" by code_simp
  from voltage_to_mu_rounding [of exact_float 0 0] c0
  have a0: "voltage_to_mu exact_float 0 = Inr 0x8000" by blast
  from voltage_to_mu_rounding [of exact_float "- 10" "- 32768"] c1
  have a1: "voltage_to_mu exact_float (- 10) = Inr 0" by blast
  from voltage_to_mu_rounding [of exact_float "5 / 32768" "1 / 2"] c2
  have a2: "voltage_to_mu exact_float (5 / 32768) = Inr 32768" by (simp add: r2)
  from voltage_to_mu_rounding [of exact_float "25 / 32768" "5 / 2"] c3
  have a3: "voltage_to_mu exact_float (25 / 32768) = Inr (2 + 32768)" by (simp add: r3)
  from voltage_to_mu_rounding [of exact_float 10 32768] c4
  have a4: "voltage_to_mu exact_float 10 = Inl (ValueError ''DAC voltage out of bounds'')"
    by (simp add: r4)
  from voltage_to_mu_rounding [of exact_float 1310720 4294967296] c5
  have a5: "voltage_to_mu exact_float 1310720 = Inl OverflowError"
    by (simp add: r5)
  from a0 a1 a2 a3 a4 a5 show ?thesis by blast
qed

text \<open>
  Claim C5 as it is written fails at \<open>v = 5/32768 = 0.000152587890625\<close>, where the
  product is exactly 0.5: the driver returns \<open>0 + 32768\<close>, and rounding the tie away
  from zero would give \<open>1 + 32768\<close>.
\<close>

theorem voltage_to_mu_ties_to_even:
  "voltage_to_mu exact_float (5 / 32768) = Inr 32768 \<and>
   round_half_away (32768 / 10 * (5 / 32768)) + 32768 = 32769 \<and>
   voltage_to_mu exact_float (5 / 32768) \<noteq>
     Inr (round_half_away (32768 / 10 * (5 / 32768)) + 32768)"
  by code_simp

section \<open>Packing voltages into group words\<close>

lemma nat_and_one: "(i::nat) AND 1 \<noteq> 0 \<longleftrightarrow> odd i"
  by (simp add: and_one_eq odd_iff_mod_2_eq_one)

lemma voltage_group_step_even:
  assumes "i < length voltage" "voltage_to_mu fp (voltage ! i) = Inr v" "even i"
  shows "voltage_group_step fp voltage i data = setitem data (i div 2) v"
proof -
  from assms(3) have "\<not> i AND 1 \<noteq> 0" using nat_and_one [of i] by blast
  with assms(1,2) show ?thesis
    by (simp only: voltage_group_step_def getitem_def if_True if_False sum.case int32_mu)
qed

lemma voltage_group_step_odd:
  assumes "i < length voltage" "voltage_to_mu fp (voltage ! i) = Inr v" "odd i"
    "i div 2 < length data"
  shows "voltage_group_step fp voltage i data =
           Inr (data[i div 2 := int32 (data ! (i div 2) OR push_bit 16 v)])"
proof -
  from assms(3) have "i AND 1 \<noteq> 0" using nat_and_one [of i] by blast
  with assms(1,2,4) show ?thesis
    by (simp only: voltage_group_step_def getitem_def setitem_def if_True if_False sum.case
        not_False_eq_True)
qed

lemma voltage_group_loop_append:
  "voltage_group_loop fp voltage (xs @ ys) data =
     (case voltage_group_loop fp voltage xs data of
        Inl e \<Rightarrow> Inl e
      | Inr data' \<Rightarrow> voltage_group_loop fp voltage ys data')"
  by (induction xs arbitrary: data) (auto split: sum.splits)

lemma voltage_group_loop_snoc:
  "voltage_group_loop fp voltage (xs @ [i]) data =
     (case voltage_group_loop fp voltage xs data of
        Inl e \<Rightarrow> Inl e
      | Inr data' \<Rightarrow> voltage_group_step fp voltage i data')"
  by (simp add: voltage_group_loop_append split: sum.splits)

lemma converted_nth:
  assumes "map (voltage_to_mu fp) voltage = map Inr mus" "i < length voltage"
  shows "voltage_to_mu fp (voltage ! i) = Inr (mus ! i)"
proof -
  from assms(1) have len: "length mus = length voltage"
    by (metis length_map)
  have "voltage_to_mu fp (voltage ! i) = map (voltage_to_mu fp) voltage ! i"
    using assms(2) by simp
  also have "\<dots> = map Inr mus ! i"
    by (simp only: assms(1))
  also have "\<dots> = Inr (mus ! i)"
    using assms(2) len by simp
  finally show ?thesis .
qed

text \<open>
  The contents of \<open>data\<close> after the first \<open>k\<close> iterations of the loop of
  \<open>voltage_group_to_mu\<close>, started by \<open>set_group\<close> on a list of zeros: pairs that are
  complete are packed, a first half waits for its partner, the rest is untouched. This
  holds as long as \<open>k\<close> stays within twice the length of \<open>data\<close>.
\<close>

lemma voltage_group_loop_converted_prefix:
  assumes k: "k \<le> 2 * (length voltage div 2)"
    and conv: "\<forall>j<k. voltage_to_mu fp (voltage ! j) = Inr (mus ! j)"
  shows "voltage_group_loop fp voltage [0..<k] (replicate (length voltage div 2) (int32 0)) =
           Inr (map (\<lambda>j. if 2 * j + 1 < k
                          then int32 (mus ! (2 * j) OR push_bit 16 (mus ! (2 * j + 1)))
                          else if 2 * j < k then mus ! (2 * j) else 0)
                  [0..<length voltage div 2])"
    (is "_ = Inr (map (?P k) _)")
  using k conv
proof (induction k)
  case 0
  show ?case
    by (simp add: int32_zero map_replicate_const)
next
  case (Suc k)
  let ?L = "length voltage div 2"
  let ?D = "map (?P k) [0..<?L]"
  from Suc.prems have kL: "k < 2 * ?L" and kn: "k < length voltage" by auto
  from Suc.prems(2) have "\<forall>j<k. voltage_to_mu fp (voltage ! j) = Inr (mus ! j)" by simp
  with Suc.IH kL have ih:
    "voltage_group_loop fp voltage [0..<k] (replicate ?L (int32 0)) = Inr ?D" by simp
  from Suc.prems(2) have v: "voltage_to_mu fp (voltage ! k) = Inr (mus ! k)"
    by simp
  have "voltage_group_step fp voltage k ?D = Inr (map (?P (Suc k)) [0..<?L])"
  proof (cases "even k")
    case True
    then obtain q where q: "k = 2 * q" by (elim evenE)
    with kL have qL: "q < ?L" by simp
    have "?D[q := mus ! k] = map (?P (Suc k)) [0..<?L]"
    proof (rule nth_equalityI)
      show "length (?D[q := mus ! k]) = length (map (?P (Suc k)) [0..<?L])"
        by simp
    next
      fix j assume "j < length (?D[q := mus ! k])"
      then have jL: "j < ?L" by simp
      show "?D[q := mus ! k] ! j = map (?P (Suc k)) [0..<?L] ! j"
        using jL q by (cases "j = q") auto
    qed
    moreover have "voltage_group_step fp voltage k ?D = Inr (?D[q := mus ! k])"
      unfolding voltage_group_step_even [OF kn v True] using qL q by (simp add: setitem_def)
    ultimately show ?thesis by simp
  next
    case False
    then obtain q where q: "k = 2 * q + 1" by (elim oddE)
    with kL have qL: "q < ?L" by simp
    have kq: "k div 2 = q" using q by simp
    have Dq: "?D ! q = mus ! (2 * q)"
      using qL q by simp
    have "?D[q := int32 (mus ! (2 * q) OR push_bit 16 (mus ! k))] =
            map (?P (Suc k)) [0..<?L]"
    proof (rule nth_equalityI)
      show "length (?D[q := int32 (mus ! (2 * q) OR push_bit 16 (mus ! k))]) =
              length (map (?P (Suc k)) [0..<?L])"
        by simp
    next
      fix j assume "j < length (?D[q := int32 (mus ! (2 * q) OR push_bit 16 (mus ! k))])"
      then have jL: "j < ?L" by simp
      show "?D[q := int32 (mus ! (2 * q) OR push_bit 16 (mus ! k))] ! j =
              map (?P (Suc k)) [0..<?L] ! j"
        using jL q by (cases "j = q") auto
    qed
    moreover have "voltage_group_step fp voltage k ?D =
        Inr (?D[k div 2 := int32 (?D ! (k div 2) OR push_bit 16 (mus ! k))])"
      using qL kq by (intro voltage_group_step_odd [OF kn v False]) simp
    then have "voltage_group_step fp voltage k ?D =
        Inr (?D[q := int32 (mus ! (2 * q) OR push_bit 16 (mus ! k))])"
      by (simp only: kq Dq)
    ultimately show ?thesis by (simp only:)
  qed
  then show ?case
    by (simp add: voltage_group_loop_append ih)
qed

lemma voltage_group_loop_prefix:
  assumes conv: "map (voltage_to_mu fp) voltage = map Inr mus"
    and k: "k \<le> 2 * (length voltage div 2)"
  shows "voltage_group_loop fp voltage [0..<k] (replicate (length voltage div 2) (int32 0)) =
           Inr (map (\<lambda>j. if 2 * j + 1 < k
                          then int32 (mus ! (2 * j) OR push_bit 16 (mus ! (2 * j + 1)))
                          else if 2 * j < k then mus ! (2 * j) else 0)
                  [0..<length voltage div 2])"
proof (rule voltage_group_loop_converted_prefix [OF k])
  show "\<forall>j<k. voltage_to_mu fp (voltage ! j) = Inr (mus ! j)"
    using k by (auto intro: converted_nth [OF conv])
qed

lemma voltage_group_to_mu_even:
  assumes "map (voltage_to_mu fp) voltage = map Inr mus" "even (length voltage)"
  shows "voltage_group_to_mu fp voltage (replicate (length voltage div 2) (int32 0)) =
           Inr (map (\<lambda>j. int32 (mus ! (2 * j) OR push_bit 16 (mus ! (2 * j + 1))))
                  [0..<length voltage div 2])"
proof -
  from assms(2) have n: "length voltage = 2 * (length voltage div 2)" by simp
  have "voltage_group_loop fp voltage [0..<length voltage]
          (replicate (length voltage div 2) (int32 0)) =
        Inr (map (\<lambda>j. if 2 * j + 1 < length voltage
                       then int32 (mus ! (2 * j) OR push_bit 16 (mus ! (2 * j + 1)))
                       else if 2 * j < length voltage then mus ! (2 * j) else 0)
               [0..<length voltage div 2])"
    using n by (intro voltage_group_loop_prefix [OF assms(1)]) simp
  moreover have "map (\<lambda>j. if 2 * j + 1 < length voltage
                       then int32 (mus ! (2 * j) OR push_bit 16 (mus ! (2 * j + 1)))
                       else if 2 * j < length voltage then mus ! (2 * j) else 0)
               [0..<length voltage div 2] =
      map (\<lambda>j. int32 (mus ! (2 * j) OR push_bit 16 (mus ! (2 * j + 1))))
               [0..<length voltage div 2]"
    using n by (intro map_cong) auto
  ultimately show ?thesis by (simp add: voltage_group_to_mu_def)
qed

lemma voltage_group_step_length:
  "voltage_group_step fp voltage i data = Inr data' \<Longrightarrow> length data' = length data"
  by (auto simp add: voltage_group_step_def getitem_def setitem_def
      split: sum.splits if_splits)

lemma voltage_group_loop_length:
  "voltage_group_loop fp voltage xs data = Inr data' \<Longrightarrow> length data' = length data"
proof (induction xs arbitrary: data)
  case Nil
  then show ?case by simp
next
  case (Cons i xs)
  then show ?case
    by (auto split: sum.splits dest: voltage_group_step_length)
qed

text \<open>
  With the buffer that \<open>set_group\<close> allocates, the last iteration on a list of odd
  length stores at index \<open>len(voltage) // 2\<close>, one past the end of \<open>data\<close>.
\<close>

lemma voltage_group_step_last:
  assumes "length voltage = 2 * q + 1" "length data = q"
  shows "voltage_group_step fp voltage (2 * q) data =
           (case voltage_to_mu fp (voltage ! (2 * q)) of
              Inl e \<Rightarrow> Inl e
            | Inr v \<Rightarrow> Inl IndexError)"
proof -
  have "\<not> (2 * q) AND (1::nat) \<noteq> 0" using nat_and_one [of "2 * q"] by simp
  then show ?thesis
    using assms
    by (simp only: voltage_group_step_def getitem_def setitem_def if_False)
       (simp split: sum.splits)
qed

lemma voltage_group_to_mu_last:
  assumes "length voltage = 2 * q + 1"
  shows "voltage_group_to_mu fp voltage data =
           (case voltage_group_loop fp voltage [0..<2 * q] data of
              Inl e \<Rightarrow> Inl e
            | Inr data' \<Rightarrow> voltage_group_step fp voltage (2 * q) data')"
proof -
  have "[0..<length voltage] = [0..<2 * q] @ [2 * q]"
    by (simp add: assms)
  then show ?thesis
    by (simp only: voltage_group_to_mu_def voltage_group_loop_snoc)
qed

lemma voltage_group_to_mu_odd:
  assumes "odd (length voltage)"
  shows "isl (voltage_group_to_mu fp voltage (replicate (length voltage div 2) (int32 0)))"
proof -
  from assms obtain q where q: "length voltage = 2 * q + 1" by (elim oddE)
  then have half: "length voltage div 2 = q" by simp
  let ?d = "replicate q (int32 0)"
  show ?thesis
  proof (cases "voltage_group_loop fp voltage [0..<2 * q] ?d")
    case (Inl e)
    then show ?thesis
      by (simp add: voltage_group_to_mu_last [OF q] half)
  next
    case (Inr data')
    then have "length data' = q"
      using voltage_group_loop_length [OF Inr] by simp
    from voltage_group_step_last [OF q this, of fp]
    have "isl (voltage_group_step fp voltage (2 * q) data')"
      by (simp split: sum.splits)
    then show ?thesis
      by (simp add: voltage_group_to_mu_last [OF q] half Inr)
  qed
qed

lemma voltage_group_to_mu_odd_converted:
  assumes "map (voltage_to_mu fp) voltage = map Inr mus" "odd (length voltage)"
  shows "voltage_group_to_mu fp voltage (replicate (length voltage div 2) (int32 0)) =
           Inl IndexError"
proof -
  from assms(2) obtain q where q: "length voltage = 2 * q + 1" by (elim oddE)
  then have half: "length voltage div 2 = q" by simp
  let ?d = "replicate q (int32 0)"
  have "2 * q \<le> 2 * (length voltage div 2)" using half by simp
  from voltage_group_loop_prefix [OF assms(1) this]
  obtain data' where pre: "voltage_group_loop fp voltage [0..<2 * q] ?d = Inr data'"
    unfolding half by blast
  then have len: "length data' = q"
    using voltage_group_loop_length [OF pre] by simp
  have "voltage_to_mu fp (voltage ! (2 * q)) = Inr (mus ! (2 * q))"
    using q by (intro converted_nth [OF assms(1)]) simp
  with voltage_group_step_last [OF q len, of fp]
  have "voltage_group_step fp voltage (2 * q) data' = Inl IndexError" by simp
  then show ?thesis
    by (simp add: voltage_group_to_mu_last [OF q] half pre)
qed

text \<open>The first voltage that does not convert decides the exception of the loop.\<close>

lemma voltage_group_to_mu_first_error:
  assumes i: "i < length voltage"
    and conv: "\<forall>j<i. voltage_to_mu fp (voltage ! j) = Inr (mus ! j)"
    and err: "voltage_to_mu fp (voltage ! i) = Inl e"
  shows "voltage_group_to_mu fp voltage (replicate (length voltage div 2) (int32 0)) = Inl e"
proof -
  have "i \<le> 2 * (length voltage div 2)" using i by linarith
  from voltage_group_loop_converted_prefix [OF this conv]
  obtain data' where pre:
    "voltage_group_loop fp voltage [0..<i] (replicate (length voltage div 2) (int32 0)) = Inr data'"
    by blast
  have step: "voltage_group_step fp voltage i data' = Inl e"
    using i err by (simp add: voltage_group_step_def getitem_def)
  have "[0..<length voltage] = [0..<i] @ i # [Suc i..<length voltage]"
    using i by (metis le0 upt_add_eq_append upt_conv_Cons le_add_diff_inverse less_imp_le_nat)
  then show ?thesis
    by (simp add: voltage_group_to_mu_def voltage_group_loop_append pre step)
qed

lemma voltage_group_to_mu_some_error:
  assumes "\<exists>x\<in>set voltage. isl (voltage_to_mu fp x)"
  shows "\<exists>e. voltage_group_to_mu fp voltage (replicate (length voltage div 2) (int32 0)) = Inl e \<and>
             (\<exists>x\<in>set voltage. voltage_to_mu fp x = Inl e)"
proof -
  let ?bad = "\<lambda>i. i < length voltage \<and> isl (voltage_to_mu fp (voltage ! i))"
  from assms obtain i0 where "?bad i0"
    by (auto simp add: in_set_conv_nth)
  define i where "i = (LEAST i. ?bad i)"
  have bad: "?bad i" unfolding i_def by (rule LeastI [of ?bad, OF \<open>?bad i0\<close>])
  have least: "\<not> ?bad j" if "j < i" for j
    using that not_less_Least [of j ?bad] by (simp add: i_def)
  from bad obtain e where e: "voltage_to_mu fp (voltage ! i) = Inl e"
    by (auto simp add: isl_def)
  define mus where "mus = map (\<lambda>x. projr (voltage_to_mu fp x)) voltage"
  have conv: "\<forall>j<i. voltage_to_mu fp (voltage ! j) = Inr (mus ! j)"
  proof (intro allI impI)
    fix j assume "j < i"
    with bad least [of j] have "j < length voltage" "\<not> isl (voltage_to_mu fp (voltage ! j))"
      by auto
    then show "voltage_to_mu fp (voltage ! j) = Inr (mus ! j)"
      by (simp add: mus_def)
  qed
  from bad have "i < length voltage" by simp
  from voltage_group_to_mu_first_error [OF this conv e] bad e show ?thesis
    by (metis nth_mem)
qed

text \<open>
  With exact arithmetic 0 V is 0x8000 and -10 V is 0, and +10 V, which would be
  0x10000, is out of bounds.
\<close>

lemma voltage_to_mu_exact_boundaries:
  "voltage_to_mu exact_float 0 = Inr 0x8000 \<and>
   voltage_to_mu exact_float (- 10) = Inr 0 \<and>
   voltage_to_mu exact_float 10 = Inl (ValueError ''DAC voltage out of bounds'')"
  by code_simp

subsection \<open>What \<open>set_group\<close> writes\<close>

lemma set_group_converted:
  assumes "voltage_group_to_mu fp voltage (replicate (length voltage div 2) (int32 0)) = r"
  shows "set_group self fp dac voltage s =
           (case r of Inl e \<Rightarrow> (Inl e, s) | Inr data \<Rightarrow> set_group_mu self dac data s)"
  using assms by (simp add: set_group_def)

text \<open>
  Claim C4, as amended. For an even number of voltages that all convert and an aligned
  first channel, \<open>set_group\<close> issues exactly one wide write to the address
  \<open>channel | dac\<close>. Its data are the \<open>len(voltage) // 2\<close> packed words, word \<open>j\<close>
  holding the machine units of voltage \<open>2j\<close> in its low half and those of voltage
  \<open>2j + 1\<close> in its high half. The data are not extended to the width of the group.
\<close>

theorem set_group_even_length:
  assumes "even (length voltage)"
    and "map (voltage_to_mu fp) voltage = map Inr mus"
    and "dac AND (width self - 1) = 0"
  shows "set_group self fp dac voltage s =
           (Inr (),
            s @ [OutputWide (channel self OR dac)
                   (map (\<lambda>j. int32 (mus ! (2 * j) OR push_bit 16 (mus ! (2 * j + 1))))
                      [0..<length voltage div 2])])"
  using assms(3)
  by (simp add: set_group_converted [OF voltage_group_to_mu_even [OF assms(2,1)]]
      set_group_mu_def rtio_output_wide_def)

theorem set_group_even_length_witness:
  "set_group (Fastino_init 3 2) exact_float 4 [-1, 1, 0, 1 / 2] [] =
     (Inr (), [OutputWide 772 [- 1932692685, - 2040102912]])"
proof -
  have a: "even (length [-1, 1, 0, 1 / 2 :: rat])" by simp
  have b: "map (voltage_to_mu exact_float) [-1, 1, 0, 1 / 2] =
             map Inr [29491, 36045, 32768, 34406]"
    by code_simp
  have c: "4 AND (width (Fastino_init 3 2) - 1) = 0" by code_simp
  have d: "channel (Fastino_init 3 2) OR 4 = 772" by code_simp
  have e: "map (\<lambda>j. int32 ([29491, 36045, 32768, 34406] ! (2 * j) OR
                 push_bit 16 ([29491, 36045, 32768, 34406] ! (2 * j + 1))))
             [0..<length [-1, 1, 0, 1 / 2 :: rat] div 2] = [- 1932692685, - 2040102912]"
    by code_simp
  show ?thesis
    using set_group_even_length [OF a b c, of "[]"] by (simp only: d e append_Nil)
qed

text \<open>
  Claim C4 as it is written fails on a device with \<open>log2_width = 2\<close> (width 4). Its
  example \<open>set_group(0, [1.0, -1.0, 0.5])\<close> raises IndexError and writes nothing,
  instead of the two words \<open>mu(1.0) | mu(-1.0) << 16\<close> and \<open>mu(0.5) | 0 << 16\<close>.
  And \<open>set_group(0, [1.0, -1.0])\<close> writes the single word
  \<open>36045 | 29491 << 16 = 1932758221\<close>, not \<open>width / 2 = 2\<close> words with the second
  zero-filled.
\<close>

theorem set_group_no_padding:
  "width (Fastino_init 0 2) = 4 \<and>
   set_group (Fastino_init 0 2) exact_float 0 [1, -1, 1 / 2] [] = (Inl IndexError, []) \<and>
   snd (set_group (Fastino_init 0 2) exact_float 0 [1, -1, 1 / 2] []) \<noteq>
     [OutputWide 0 [1932758221, 34406]] \<and>
   set_group (Fastino_init 0 2) exact_float 0 [1, -1] [] =
     (Inr (), [OutputWide 0 [1932758221]]) \<and>
   snd (set_group (Fastino_init 0 2) exact_float 0 [1, -1] []) \<noteq>
     [OutputWide 0 [1932758221, 0]]"
  by code_simp

text \<open>
  Claim C3. Packing a voltage list of odd length does not succeed in \<open>set_group\<close>:
  the buffer it allocates has \<open>len(voltage) // 2\<close> words, so the store of the last,
  unpaired sample at index \<open>len(voltage) // 2\<close> is out of range. Every call with a
  list of odd length raises and writes nothing, and when all voltages convert the
  exception is IndexError.
\<close>

theorem set_group_odd_length:
  "odd (length voltage) \<longrightarrow>
     (\<exists>e. set_group self fp dac voltage s = (Inl e, s)) \<and>
     (map (voltage_to_mu fp) voltage = map Inr mus \<longrightarrow>
        set_group self fp dac voltage s = (Inl IndexError, s))"
proof (intro impI conjI)
  assume odd: "odd (length voltage)"
  from voltage_group_to_mu_odd [OF odd, of fp]
  obtain e where "voltage_group_to_mu fp voltage (replicate (length voltage div 2) (int32 0))
      = Inl e"
    by (auto simp add: isl_def)
  then show "\<exists>e. set_group self fp dac voltage s = (Inl e, s)"
    by (simp add: set_group_def)
next
  assume "odd (length voltage)" "map (voltage_to_mu fp) voltage = map Inr mus"
  then show "set_group self fp dac voltage s = (Inl IndexError, s)"
    by (simp add: set_group_def voltage_group_to_mu_odd_converted)
qed

theorem set_group_odd_length_witness:
  "set_group (Fastino_init 0 2) exact_float 0 [0] [] = (Inl IndexError, [])"
proof -
  have a: "odd (length [0 :: rat])" by simp
  have b: "map (voltage_to_mu exact_float) [0] = map Inr [32768]" by code_simp
  show ?thesis
    using set_group_odd_length [of "[0]" "Fastino_init 0 2" exact_float 0 "[]" "[32768]"] a b
    by blast
qed

text \<open>
  The loop itself does pack a single sample with an upper half of zero when the caller
  passes a buffer of one word; with the empty buffer of \<open>set_group\<close> it raises.
\<close>

lemma voltage_group_to_mu_single:
  assumes "voltage_to_mu fp v0 = Inr m"
  shows "voltage_group_to_mu fp [v0] [d] = Inr [m]"
  using assms
  by (simp add: voltage_group_to_mu_def voltage_group_step_def getitem_def setitem_def int32_mu)

lemma voltage_group_to_mu_single_empty:
  "voltage_group_to_mu fp [v0] [] =
     (case voltage_to_mu fp v0 of Inl e \<Rightarrow> Inl e | Inr m \<Rightarrow> Inl IndexError)"
  by (simp add: voltage_group_to_mu_def voltage_group_step_def getitem_def setitem_def
      split: sum.splits)

section \<open>Group alignment\<close>

lemma and_width:
  "dac AND (width (Fastino_init chan log2_width) - 1) = dac mod width (Fastino_init chan log2_width)"
proof -
  have "width (Fastino_init chan log2_width) = 2 ^ log2_width"
    by (simp add: Fastino_init_def push_bit_eq_mult)
  moreover have "dac AND ((2::int) ^ log2_width - 1) = dac mod 2 ^ log2_width"
    by (simp add: mask_eq_exp_minus_1 [symmetric] take_bit_eq_mask [symmetric] take_bit_eq_mod)
  ultimately show ?thesis by simp
qed

lemma set_group_mu_Fastino_init:
  "set_group_mu (Fastino_init chan log2_width) dac data s =
     (if dac mod width (Fastino_init chan log2_width) \<noteq> 0
      then (Inl (ValueError ''Group index LSBs must be zero''), s)
      else (Inr (), s @ [OutputWide (push_bit 8 chan OR dac) data]))"
proof -
  have ch: "channel (Fastino_init chan log2_width) = push_bit 8 chan"
    by (simp add: Fastino_init_def)
  show ?thesis
    by (simp only: set_group_mu_def and_width rtio_output_wide_def ch)
qed

text \<open>
  Claim C6. On a device built by the constructor, a group write raises the alignment
  error (the ValueError "Group index LSBs must be zero") exactly when
  \<open>dac % width\<close> is not 0, and it then leaves the log of writes as it was: the check
  comes before the write. The same holds for \<open>set_group\<close> once the voltages are
  packed. With \<open>width = 1\<close> the check never fails.
\<close>

theorem group_alignment:
  "(fst (set_group_mu (Fastino_init chan log2_width) dac data s) =
        Inl (ValueError ''Group index LSBs must be zero'')
      \<longleftrightarrow> dac mod width (Fastino_init chan log2_width) \<noteq> 0) \<and>
   (dac mod width (Fastino_init chan log2_width) \<noteq> 0 \<longrightarrow>
      set_group_mu (Fastino_init chan log2_width) dac data s =
        (Inl (ValueError ''Group index LSBs must be zero''), s)) \<and>
   (dac mod width (Fastino_init chan log2_width) = 0 \<longrightarrow>
      set_group_mu (Fastino_init chan log2_width) dac data s =
        (Inr (), s @ [OutputWide (push_bit 8 chan OR dac) data])) \<and>
   (voltage_group_to_mu fp voltage (replicate (length voltage div 2) (int32 0)) = Inr data \<longrightarrow>
      (fst (set_group (Fastino_init chan log2_width) fp dac voltage s) =
          Inl (ValueError ''Group index LSBs must be zero'')
        \<longleftrightarrow> dac mod width (Fastino_init chan log2_width) \<noteq> 0)) \<and>
   (width (Fastino_init chan log2_width) = 1 \<longrightarrow>
      set_group_mu (Fastino_init chan log2_width) dac data s =
        (Inr (), s @ [OutputWide (push_bit 8 chan OR dac) data]))"
proof -
  let ?f = "Fastino_init chan log2_width"
  note mu = set_group_mu_Fastino_init [of chan log2_width dac data s]
  have a: "fst (set_group_mu ?f dac data s) = Inl (ValueError ''Group index LSBs must be zero'')
      \<longleftrightarrow> dac mod width ?f \<noteq> 0"
    unfolding mu by (cases "dac mod width ?f = 0") simp_all
  have b: "dac mod width ?f \<noteq> 0 \<longrightarrow>
      set_group_mu ?f dac data s = (Inl (ValueError ''Group index LSBs must be zero''), s)"
    unfolding mu by (cases "dac mod width ?f = 0") simp_all
  have c: "dac mod width ?f = 0 \<longrightarrow>
      set_group_mu ?f dac data s = (Inr (), s @ [OutputWide (push_bit 8 chan OR dac) data])"
    unfolding mu by (cases "dac mod width ?f = 0") simp_all
  have d: "voltage_group_to_mu fp voltage (replicate (length voltage div 2) (int32 0)) = Inr data
      \<longrightarrow> (fst (set_group ?f fp dac voltage s) =
             Inl (ValueError ''Group index LSBs must be zero'')
           \<longleftrightarrow> dac mod width ?f \<noteq> 0)"
  proof
    assume "voltage_group_to_mu fp voltage (replicate (length voltage div 2) (int32 0)) = Inr data"
    then have "set_group ?f fp dac voltage s = set_group_mu ?f dac data s"
      by (simp add: set_group_def)
    with a show "fst (set_group ?f fp dac voltage s) =
             Inl (ValueError ''Group index LSBs must be zero'')
           \<longleftrightarrow> dac mod width ?f \<noteq> 0"
      by (simp only:)
  qed
  have e: "width ?f = 1 \<longrightarrow>
      set_group_mu ?f dac data s = (Inr (), s @ [OutputWide (push_bit 8 chan OR dac) data])"
  proof
    assume "width ?f = 1"
    then have "dac mod width ?f = 0" by simp
    with c show "set_group_mu ?f dac data s =
        (Inr (), s @ [OutputWide (push_bit 8 chan OR dac) data])"
      by blast
  qed
  from a b c d e show ?thesis by blast
qed

theorem group_alignment_witness:
  "set_group_mu (Fastino_init 3 2) 6 [7] [] =
     (Inl (ValueError ''Group index LSBs must be zero''), []) \<and>
   set_group_mu (Fastino_init 3 2) 8 [7] [] = (Inr (), [] @ [OutputWide (push_bit 8 3 OR 8) [7]]) \<and>
   set_group_mu (Fastino_init 3 0) 5 [7] [] = (Inr (), [] @ [OutputWide (push_bit 8 3 OR 5) [7]]) \<and>
   fst (set_group (Fastino_init 3 2) exact_float 6 [1, -1] []) =
     Inl (ValueError ''Group index LSBs must be zero'')"
proof -
  have w: "width (Fastino_init 3 2) = 4" "width (Fastino_init 3 0) = 1"
    by (simp_all add: Fastino_init_def)
  have h1: "6 mod width (Fastino_init 3 2) \<noteq> 0" by (simp add: w)
  have h2: "8 mod width (Fastino_init 3 2) = 0" by (simp add: w)
  have p: "voltage_group_to_mu exact_float [1, -1] (replicate (length [1, -1 :: rat] div 2) (int32 0))
             = Inr [1932758221]"
    by code_simp
  from group_alignment [of 3 2 6 "[7]" "[]" exact_float "[1, -1]"] h1
  have c1: "set_group_mu (Fastino_init 3 2) 6 [7] [] =
     (Inl (ValueError ''Group index LSBs must be zero''), [])" by blast
  from group_alignment [of 3 2 8 "[7]" "[]" exact_float "[1, -1]"] h2
  have c2: "set_group_mu (Fastino_init 3 2) 8 [7] [] =
     (Inr (), [] @ [OutputWide (push_bit 8 3 OR 8) [7]])" by blast
  from group_alignment [of 3 0 5 "[7]" "[]" exact_float "[1, -1]"] w(2)
  have c3: "set_group_mu (Fastino_init 3 0) 5 [7] [] =
     (Inr (), [] @ [OutputWide (push_bit 8 3 OR 5) [7]])" by blast
  from group_alignment [of 3 2 6 "[1932758221]" "[]" exact_float "[1, -1]"] h1 p
  have c4: "fst (set_group (Fastino_init 3 2) exact_float 6 [1, -1] []) =
     Inl (ValueError ''Group index LSBs must be zero'')" by blast
  from c1 c2 c3 c4 show ?thesis by blast
qed

section \<open>The register map and the writes of each operation\<close>

lemma write_reg_Fastino_init:
  "write_reg (Fastino_init chan log2_width) addr data s =
     (Inr (), s @ [Output (push_bit 8 chan OR addr) data])"
  by (simp add: write_reg_def rtio_output_def Fastino_init_def)

lemma int32_of_bool: "int32 (of_bool b) = of_bool b"
  by (cases b) (simp_all add: int32_def)

text \<open>
  Claim C7. Every register operation writes to the address
  \<open>(channel_base << 8) | offset\<close>, with offset 0x20 for the update mask, 0x21 for the
  hold mask, 0x22 for the configuration, 0x23 for the LEDs, 0x25 for the continuous
  mask, 0x26 for the staged CIC configuration and 0x27 for the apply mask. The
  configuration word is \<open>reset | afe_power_down << 1 | dac_clr << 2 | clr_err << 3\<close>
  and the CIC word is \<open>rate_mantissa | rate_exponent << 6 | gain_exponent << 10\<close>.
\<close>

theorem register_map:
  "write_reg (Fastino_init chan log2_width) addr data s =
     (Inr (), s @ [Output (push_bit 8 chan OR addr) data]) \<and>
   update (Fastino_init chan log2_width) data s =
     (Inr (), s @ [Output (push_bit 8 chan OR 0x20) data]) \<and>
   set_hold (Fastino_init chan log2_width) data s =
     (Inr (), s @ [Output (push_bit 8 chan OR 0x21) data]) \<and>
   set_cfg (Fastino_init chan log2_width) reset afe_power_down dac_clr clr_err s =
     (Inr (), s @ [Output (push_bit 8 chan OR 0x22)
                     (of_bool reset OR push_bit 1 (of_bool afe_power_down) OR
                      push_bit 2 (of_bool dac_clr) OR push_bit 3 (of_bool clr_err))]) \<and>
   set_leds (Fastino_init chan log2_width) data s =
     (Inr (), s @ [Output (push_bit 8 chan OR 0x23) data]) \<and>
   set_continuous (Fastino_init chan log2_width) data s =
     (Inr (), s @ [Output (push_bit 8 chan OR 0x25) data]) \<and>
   (0 \<le> rate_mantissa \<and> rate_mantissa < 64 \<and> 0 \<le> rate_exponent \<and> rate_exponent < 16 \<and>
    0 \<le> gain_exponent \<and> gain_exponent < 64 \<longrightarrow>
      stage_cic_mu (Fastino_init chan log2_width) rate_mantissa rate_exponent gain_exponent s =
        (Inr (), s @ [Output (push_bit 8 chan OR 0x26)
                        (rate_mantissa OR push_bit 6 rate_exponent OR
                         push_bit 10 gain_exponent)])) \<and>
   apply_cic (Fastino_init chan log2_width) data s =
     (Inr (), s @ [Output (push_bit 8 chan OR 0x27) data])"
proof -
  have cic: "stage_cic_mu (Fastino_init chan log2_width) rate_mantissa rate_exponent gain_exponent s =
        (Inr (), s @ [Output (push_bit 8 chan OR 0x26)
                        (rate_mantissa OR push_bit 6 rate_exponent OR
                         push_bit 10 gain_exponent)])"
    if "0 \<le> rate_mantissa \<and> rate_mantissa < 64 \<and> 0 \<le> rate_exponent \<and> rate_exponent < 16 \<and>
        0 \<le> gain_exponent \<and> gain_exponent < 64"
    using that by (simp add: stage_cic_mu_def push_bit_small write_reg_Fastino_init)
  have cfg: "set_cfg (Fastino_init chan log2_width) reset afe_power_down dac_clr clr_err s =
     (Inr (), s @ [Output (push_bit 8 chan OR 0x22)
                     (of_bool reset OR push_bit 1 (of_bool afe_power_down) OR
                      push_bit 2 (of_bool dac_clr) OR push_bit 3 (of_bool clr_err))])"
    by (simp add: set_cfg_def write_reg_Fastino_init int32_of_bool)
  show ?thesis
    using cic cfg
    by (simp add: update_def set_hold_def set_leds_def set_continuous_def apply_cic_def
        write_reg_Fastino_init)
qed

theorem register_map_witness:
  "set_cfg (Fastino_init 3 0) False False False True [] = (Inr (), [Output 802 8]) \<and>
   stage_cic_mu (Fastino_init 3 0) 61 4 30 [] = (Inr (), [Output 806 31037]) \<and>
   apply_cic (Fastino_init 3 0) 5 [] = (Inr (), [Output 807 5])"
  using register_map [of 3 0 0 5 "[]" False False False True 61 4 30]
  by (simp add: push_bit_eq_mult)

lemma voltage_to_mu_Inr_iff:
  "voltage_to_mu fp voltage = Inr d \<longleftrightarrow>
     (\<exists>q. classify fp (fmul fp (fdiv fp (float_of fp 0x8000) (ten fp)) voltage) = Finite q \<and>
          d = round_half_even q + 32768 \<and> 0 \<le> d \<and> d \<le> 65535)"
proof (cases "classify fp (fmul fp (fdiv fp (float_of fp 0x8000) (ten fp)) voltage)")
  case (Finite q)
  then show ?thesis
    by (auto simp add: voltage_to_mu_finite [OF Finite])
next
  case Infinite
  then show ?thesis by (simp add: voltage_to_mu_not_finite)
next
  case NaN
  then show ?thesis by (simp add: voltage_to_mu_not_finite)
qed

lemma set_dac_result:
  "set_dac self fp dac voltage s =
     (case voltage_to_mu fp voltage of
        Inl e \<Rightarrow> (Inl e, s)
      | Inr d \<Rightarrow> (Inr (), s @ [Output (channel self OR dac) d]))"
  by (simp add: set_dac_def write_reg_def rtio_output_def split: sum.splits)

lemma set_group_mu_result:
  "set_group_mu self dac data s =
     (if dac AND (width self - 1) \<noteq> 0
      then (Inl (ValueError ''Group index LSBs must be zero''), s)
      else (Inr (), s @ [OutputWide (channel self OR dac) data]))"
  by (simp add: set_group_mu_def rtio_output_wide_def)

lemma stage_cic_mu_result:
  "stage_cic_mu self m e g s =
     (if m < 0 \<or> 64 \<le> m then (Inl (ValueError ''rate_mantissa out of bounds''), s)
      else if e < 0 \<or> 16 \<le> e then (Inl (ValueError ''rate_exponent out of bounds''), s)
      else if g < 0 \<or> 64 \<le> g then (Inl (ValueError ''gain_exponent out of bounds''), s)
      else (Inr (), s @ [Output (channel self OR 0x26) (m OR push_bit 6 e OR push_bit 10 g)]))"
  by (simp add: stage_cic_mu_def push_bit_small write_reg_def rtio_output_def)

text \<open>
  Claim C8. Each operation that can fail validates before it writes. \<open>set_dac\<close>
  raises, with the log of writes as it was, exactly when \<open>voltage_to_mu\<close> does, that
  is, unless the rounded product plus 32768 lies in 0..65535, and otherwise appends
  the one write of that value. \<open>set_group_mu\<close> raises exactly when the group index is
  misaligned. \<open>set_group\<close> raises when a voltage does not convert (the exception is
  that of such a voltage), when the list has odd length, or when the index is misaligned,
  and otherwise appends the one wide write of the packed words. \<open>stage_cic_mu\<close> raises
  exactly when a field is out of range. \<open>stage_cic\<close> raises exactly when the rate is
  outside 1..65536, and otherwise stages the mantissa \<open>rate >> e\<close> for the least \<open>e\<close>
  that brings it to at most 64, with the gain exponent \<open>3e\<close> plus the least exponent
  whose power of two reaches the cube of the mantissa. In every case an operation either
  raises and leaves the log as it was, or appends exactly its one write; \<open>read\<close>
  always raises.
\<close>

theorem operations_atomic:
  "((\<exists>e. set_dac self fp dac voltage s = (Inl e, s)) \<or>
    (\<exists>d. voltage_to_mu fp voltage = Inr d \<and>
         set_dac self fp dac voltage s = (Inr (), s @ [Output (channel self OR dac) d]))) \<and>
   ((\<exists>e. set_group_mu self dac data s = (Inl e, s)) \<or>
    set_group_mu self dac data s = (Inr (), s @ [OutputWide (channel self OR dac) data])) \<and>
   ((\<exists>e. set_group self fp dac voltages s = (Inl e, s)) \<or>
    (\<exists>d. voltage_group_to_mu fp voltages (replicate (length voltages div 2) (int32 0)) = Inr d \<and>
         set_group self fp dac voltages s =
           (Inr (), s @ [OutputWide (channel self OR dac) d]))) \<and>
   ((\<exists>e. stage_cic_mu self rate_mantissa rate_exponent gain_exponent s = (Inl e, s)) \<or>
    stage_cic_mu self rate_mantissa rate_exponent gain_exponent s =
      (Inr (), s @ [Output (channel self OR 0x26)
                      (rate_mantissa OR push_bit 6 rate_exponent OR
                       push_bit 10 gain_exponent)])) \<and>
   ((\<exists>e. stage_cic self rate s = (Inl e, s)) \<or>
    (\<exists>m e g. stage_cic_params rate = (m, e, g) \<and>
       stage_cic self rate s =
         (Inr (push_bit e m),
          s @ [Output (channel self OR 0x26)
                 ((m - 1) OR push_bit 6 (int e) OR push_bit 10 (int g))]))) \<and>
   read self addr s = (Inl NotImplementedError, s) \<and>
   (voltage_to_mu fp voltage = Inr d \<longleftrightarrow>
      (\<exists>q. classify fp (fmul fp (fdiv fp (float_of fp 0x8000) (ten fp)) voltage) = Finite q \<and>
           d = round_half_even q + 32768 \<and> 0 \<le> d \<and> d \<le> 65535)) \<and>
   (voltage_to_mu fp voltage = Inl err \<longrightarrow>
      set_dac self fp dac voltage s = (Inl err, s)) \<and>
   (voltage_to_mu fp voltage = Inr d \<longrightarrow>
      set_dac self fp dac voltage s = (Inr (), s @ [Output (channel self OR dac) d])) \<and>
   (dac AND (width self - 1) \<noteq> 0 \<longrightarrow>
      set_group_mu self dac data s = (Inl (ValueError ''Group index LSBs must be zero''), s)) \<and>
   (dac AND (width self - 1) = 0 \<longrightarrow>
      set_group_mu self dac data s = (Inr (), s @ [OutputWide (channel self OR dac) data])) \<and>
   ((\<exists>x\<in>set voltages. isl (voltage_to_mu fp x)) \<longrightarrow>
      (\<exists>e. set_group self fp dac voltages s = (Inl e, s) \<and>
           (\<exists>x\<in>set voltages. voltage_to_mu fp x = Inl e))) \<and>
   (map (voltage_to_mu fp) voltages = map Inr mus \<and> odd (length voltages) \<longrightarrow>
      set_group self fp dac voltages s = (Inl IndexError, s)) \<and>
   (map (voltage_to_mu fp) voltages = map Inr mus \<and> even (length voltages) \<and>
    dac AND (width self - 1) \<noteq> 0 \<longrightarrow>
      set_group self fp dac voltages s =
        (Inl (ValueError ''Group index LSBs must be zero''), s)) \<and>
   (map (voltage_to_mu fp) voltages = map Inr mus \<and> even (length voltages) \<and>
    dac AND (width self - 1) = 0 \<longrightarrow>
      set_group self fp dac voltages s =
        (Inr (),
         s @ [OutputWide (channel self OR dac)
                (map (\<lambda>j. int32 (mus ! (2 * j) OR push_bit 16 (mus ! (2 * j + 1))))
                   [0..<length voltages div 2])])) \<and>
   (rate_mantissa < 0 \<or> 64 \<le> rate_mantissa \<or> rate_exponent < 0 \<or> 16 \<le> rate_exponent \<or>
    gain_exponent < 0 \<or> 64 \<le> gain_exponent \<longrightarrow>
      (\<exists>e. stage_cic_mu self rate_mantissa rate_exponent gain_exponent s = (Inl e, s))) \<and>
   (0 \<le> rate_mantissa \<and> rate_mantissa < 64 \<and> 0 \<le> rate_exponent \<and> rate_exponent < 16 \<and>
    0 \<le> gain_exponent \<and> gain_exponent < 64 \<longrightarrow>
      stage_cic_mu self rate_mantissa rate_exponent gain_exponent s =
        (Inr (), s @ [Output (channel self OR 0x26)
                        (rate_mantissa OR push_bit 6 rate_exponent OR
                         push_bit 10 gain_exponent)])) \<and>
   (rate \<le> 0 \<or> 65536 < rate \<longrightarrow>
      stage_cic self rate s = (Inl (ValueError ''rate out of bounds''), s)) \<and>
   (1 \<le> rate \<and> rate \<le> 65536 \<longrightarrow>
      (\<exists>m e g.
         stage_cic self rate s =
           (Inr (m * 2 ^ e),
            s @ [Output (channel self OR 0x26)
                   ((m - 1) OR push_bit 6 (int e) OR push_bit 10 (int g))]) \<and>
         m = rate div 2 ^ e \<and> m \<le> 64 \<and> (\<forall>k<e. 64 < rate div 2 ^ k) \<and>
         3 * e \<le> g \<and> m * m * m \<le> 2 ^ (g - 3 * e) \<and>
         (g = 3 * e \<or> 2 ^ (g - 3 * e - 1) < m * m * m)))"
proof -
  let ?packed = "replicate (length voltages div 2) (int32 0)"
  have a1: "(\<exists>e. set_dac self fp dac voltage s = (Inl e, s)) \<or>
    (\<exists>d. voltage_to_mu fp voltage = Inr d \<and>
         set_dac self fp dac voltage s = (Inr (), s @ [Output (channel self OR dac) d]))"
    by (cases "voltage_to_mu fp voltage") (simp_all add: set_dac_result)
  have a2: "(\<exists>e. set_group_mu self dac data s = (Inl e, s)) \<or>
    set_group_mu self dac data s = (Inr (), s @ [OutputWide (channel self OR dac) data])"
    for data
    by (simp add: set_group_mu_result)
  have a3: "(\<exists>e. set_group self fp dac voltages s = (Inl e, s)) \<or>
    (\<exists>d. voltage_group_to_mu fp voltages ?packed = Inr d \<and>
         set_group self fp dac voltages s =
           (Inr (), s @ [OutputWide (channel self OR dac) d]))"
  proof (cases "voltage_group_to_mu fp voltages ?packed")
    case (Inl e)
    then show ?thesis by (simp add: set_group_def)
  next
    case (Inr d)
    then have "set_group self fp dac voltages s = set_group_mu self dac d s"
      by (simp add: set_group_def)
    with a2 [of d] Inr show ?thesis by auto
  qed
  have a4: "(\<exists>x. stage_cic_mu self m e g s = (Inl x, s)) \<or>
    stage_cic_mu self m e g s =
      (Inr (), s @ [Output (channel self OR 0x26) (m OR push_bit 6 e OR push_bit 10 g)])"
    for m e g
    by (simp add: stage_cic_mu_result)
  have a5: "(\<exists>e. stage_cic self rate s = (Inl e, s)) \<or>
    (\<exists>m e g. stage_cic_params rate = (m, e, g) \<and>
       stage_cic self rate s =
         (Inr (push_bit e m),
          s @ [Output (channel self OR 0x26)
                 ((m - 1) OR push_bit 6 (int e) OR push_bit 10 (int g))]))"
  proof -
    obtain m e g where p: "stage_cic_params rate = (m, e, g)"
      by (cases "stage_cic_params rate")
    from a4 [of "m - 1" "int e" "int g"] show ?thesis
    proof
      assume "\<exists>x. stage_cic_mu self (m - 1) (int e) (int g) s = (Inl x, s)"
      then have "\<exists>x. stage_cic self rate s = (Inl x, s)"
        by (auto simp add: stage_cic_def p)
      then show ?thesis by blast
    next
      assume "stage_cic_mu self (m - 1) (int e) (int g) s =
        (Inr (), s @ [Output (channel self OR 0x26)
                        ((m - 1) OR push_bit 6 (int e) OR push_bit 10 (int g))])"
      then show ?thesis
        by (auto simp add: stage_cic_def p)
    qed
  qed
  have a6: "read self addr s = (Inl NotImplementedError, s)"
    by (simp add: read_def)
  note v = voltage_to_mu_Inr_iff [of fp voltage d]
  have d1: "voltage_to_mu fp voltage = Inl err \<longrightarrow>
      set_dac self fp dac voltage s = (Inl err, s)"
    by (simp add: set_dac_result)
  have d2: "voltage_to_mu fp voltage = Inr d \<longrightarrow>
      set_dac self fp dac voltage s = (Inr (), s @ [Output (channel self OR dac) d])"
    by (simp add: set_dac_result)
  have gm1: "dac AND (width self - 1) \<noteq> 0 \<longrightarrow>
      set_group_mu self dac data s = (Inl (ValueError ''Group index LSBs must be zero''), s)"
    by (simp add: set_group_mu_result)
  have gm2: "dac AND (width self - 1) = 0 \<longrightarrow>
      set_group_mu self dac data s = (Inr (), s @ [OutputWide (channel self OR dac) data])"
    by (simp add: set_group_mu_result)
  have g1: "(\<exists>x\<in>set voltages. isl (voltage_to_mu fp x)) \<longrightarrow>
      (\<exists>e. set_group self fp dac voltages s = (Inl e, s) \<and>
           (\<exists>x\<in>set voltages. voltage_to_mu fp x = Inl e))"
  proof
    assume "\<exists>x\<in>set voltages. isl (voltage_to_mu fp x)"
    from voltage_group_to_mu_some_error [OF this]
    obtain e where e: "voltage_group_to_mu fp voltages ?packed = Inl e"
      "\<exists>x\<in>set voltages. voltage_to_mu fp x = Inl e" by blast
    from e(1) have "set_group self fp dac voltages s = (Inl e, s)"
      by (simp add: set_group_def)
    with e(2) show "\<exists>e. set_group self fp dac voltages s = (Inl e, s) \<and>
           (\<exists>x\<in>set voltages. voltage_to_mu fp x = Inl e)" by blast
  qed
  have g2: "map (voltage_to_mu fp) voltages = map Inr mus \<and> odd (length voltages) \<longrightarrow>
      set_group self fp dac voltages s = (Inl IndexError, s)"
    by (simp add: set_group_def voltage_group_to_mu_odd_converted)
  have ev: "set_group self fp dac voltages s =
      set_group_mu self dac
        (map (\<lambda>j. int32 (mus ! (2 * j) OR push_bit 16 (mus ! (2 * j + 1))))
           [0..<length voltages div 2]) s"
    if "map (voltage_to_mu fp) voltages = map Inr mus" "even (length voltages)"
    using voltage_group_to_mu_even [OF that] by (simp add: set_group_def)
  have g3: "map (voltage_to_mu fp) voltages = map Inr mus \<and> even (length voltages) \<and>
    dac AND (width self - 1) \<noteq> 0 \<longrightarrow>
      set_group self fp dac voltages s =
        (Inl (ValueError ''Group index LSBs must be zero''), s)"
    using ev by (simp add: set_group_mu_result)
  have g4: "map (voltage_to_mu fp) voltages = map Inr mus \<and> even (length voltages) \<and>
    dac AND (width self - 1) = 0 \<longrightarrow>
      set_group self fp dac voltages s =
        (Inr (),
         s @ [OutputWide (channel self OR dac)
                (map (\<lambda>j. int32 (mus ! (2 * j) OR push_bit 16 (mus ! (2 * j + 1))))
                   [0..<length voltages div 2])])"
    using ev by (simp add: set_group_mu_result)
  have cm1: "rate_mantissa < 0 \<or> 64 \<le> rate_mantissa \<or> rate_exponent < 0 \<or>
    16 \<le> rate_exponent \<or> gain_exponent < 0 \<or> 64 \<le> gain_exponent \<longrightarrow>
      (\<exists>e. stage_cic_mu self rate_mantissa rate_exponent gain_exponent s = (Inl e, s))"
    by (auto simp add: stage_cic_mu_result)
  have cm2: "0 \<le> rate_mantissa \<and> rate_mantissa < 64 \<and> 0 \<le> rate_exponent \<and>
    rate_exponent < 16 \<and> 0 \<le> gain_exponent \<and> gain_exponent < 64 \<longrightarrow>
      stage_cic_mu self rate_mantissa rate_exponent gain_exponent s =
        (Inr (), s @ [Output (channel self OR 0x26)
                        (rate_mantissa OR push_bit 6 rate_exponent OR
                         push_bit 10 gain_exponent)])"
    by (auto simp add: stage_cic_mu_result)
  have c1: "rate \<le> 0 \<or> 65536 < rate \<longrightarrow>
      stage_cic self rate s = (Inl (ValueError ''rate out of bounds''), s)"
    using stage_cic_out_of_range [of rate self s] by blast
  have c2: "1 \<le> rate \<and> rate \<le> 65536 \<longrightarrow>
      (\<exists>m e g.
         stage_cic self rate s =
           (Inr (m * 2 ^ e),
            s @ [Output (channel self OR 0x26)
                   ((m - 1) OR push_bit 6 (int e) OR push_bit 10 (int g))]) \<and>
         m = rate div 2 ^ e \<and> m \<le> 64 \<and> (\<forall>k<e. 64 < rate div 2 ^ k) \<and>
         3 * e \<le> g \<and> m * m * m \<le> 2 ^ (g - 3 * e) \<and>
         (g = 3 * e \<or> 2 ^ (g - 3 * e - 1) < m * m * m))"
  proof
    assume "1 \<le> rate \<and> rate \<le> 65536"
    then have rng: "1 \<le> rate" "rate \<le> 65536" by simp_all
    obtain m e g where p: "stage_cic_params rate = (m, e, g)"
      by (cases "stage_cic_params rate")
    from stage_cic_in_range [OF rng p, of self s]
    have "stage_cic self rate s =
           (Inr (m * 2 ^ e),
            s @ [Output (channel self OR 0x26)
                   ((m - 1) OR push_bit 6 (int e) OR push_bit 10 (int g))])"
      by (simp add: push_bit_eq_mult)
    with stage_cic_params_exact [OF p]
    show "\<exists>m e g.
         stage_cic self rate s =
           (Inr (m * 2 ^ e),
            s @ [Output (channel self OR 0x26)
                   ((m - 1) OR push_bit 6 (int e) OR push_bit 10 (int g))]) \<and>
         m = rate div 2 ^ e \<and> m \<le> 64 \<and> (\<forall>k<e. 64 < rate div 2 ^ k) \<and>
         3 * e \<le> g \<and> m * m * m \<le> 2 ^ (g - 3 * e) \<and>
         (g = 3 * e \<or> 2 ^ (g - 3 * e - 1) < m * m * m)"
      by blast
  qed
  from a1 a2 [of data] a3 a4 [of rate_mantissa rate_exponent gain_exponent] a5 a6
    v d1 d2 gm1 gm2 g1 g2 g3 g4 cm1 cm2 c1 c2
  show ?thesis by (intro conjI)
qed

theorem operations_atomic_witness:
  "set_dac (Fastino_init 3 0) exact_float 5 10 [Output 1 2] =
     (Inl (ValueError ''DAC voltage out of bounds''), [Output 1 2]) \<and>
   set_dac (Fastino_init 3 0) exact_float 5 1 [Output 1 2] =
     (Inr (), [Output 1 2] @ [Output (channel (Fastino_init 3 0) OR 5) 36045]) \<and>
   stage_cic (Fastino_init 3 0) 65537 [Output 1 2] =
     (Inl (ValueError ''rate out of bounds''), [Output 1 2]) \<and>
   set_group (Fastino_init 3 2) exact_float 6 [1, - 1] [Output 1 2] =
     (Inl (ValueError ''Group index LSBs must be zero''), [Output 1 2]) \<and>
   set_group (Fastino_init 3 2) exact_float 4 [1, 11] [Output 1 2] =
     (Inl (ValueError ''DAC voltage out of bounds''), [Output 1 2])"
proof -
  have v10: "voltage_to_mu exact_float 10 = Inl (ValueError ''DAC voltage out of bounds'')"
    by code_simp
  have v11: "voltage_to_mu exact_float 11 = Inl (ValueError ''DAC voltage out of bounds'')"
    by code_simp
  have v1: "voltage_to_mu exact_float 1 = Inr 36045" by code_simp
  have vm: "map (voltage_to_mu exact_float) [1, - 1] = map Inr [36045, 29491]" by code_simp
  have ev: "even (length [1, - 1 :: rat])" by simp
  have al: "6 AND (width (Fastino_init 3 2) - 1) \<noteq> 0" by code_simp
  have rt: "(65537::int) \<le> 0 \<or> 65536 < (65537::int)" by simp
  have bad: "\<exists>x\<in>set [1, 11 :: rat]. isl (voltage_to_mu exact_float x)"
    by (simp add: v11)
  note i1 = operations_atomic [where self = "Fastino_init 3 0" and fp = exact_float and dac = 5
      and voltage = 10 and s = "[Output 1 2]"
      and err = "ValueError ''DAC voltage out of bounds''" and rate = 65537]
  from i1 [THEN conjunct2, THEN conjunct2, THEN conjunct2, THEN conjunct2, THEN conjunct2, THEN conjunct2, THEN conjunct2, THEN conjunct1] v10
  have w1: "set_dac (Fastino_init 3 0) exact_float 5 10 [Output 1 2] =
     (Inl (ValueError ''DAC voltage out of bounds''), [Output 1 2])"
    by blast
  from i1 [THEN conjunct2, THEN conjunct2, THEN conjunct2, THEN conjunct2, THEN conjunct2, THEN conjunct2, THEN conjunct2, THEN conjunct2, THEN conjunct2, THEN conjunct2, THEN conjunct2, THEN conjunct2, THEN conjunct2, THEN conjunct2, THEN conjunct2, THEN conjunct2, THEN conjunct2, THEN conjunct1] rt
  have w3: "stage_cic (Fastino_init 3 0) 65537 [Output 1 2] =
     (Inl (ValueError ''rate out of bounds''), [Output 1 2])"
    by blast
  note i2 = operations_atomic [where self = "Fastino_init 3 0" and fp = exact_float and dac = 5
      and voltage = 1 and s = "[Output 1 2]" and d = 36045]
  from i2 [THEN conjunct2, THEN conjunct2, THEN conjunct2, THEN conjunct2, THEN conjunct2, THEN conjunct2, THEN conjunct2, THEN conjunct2, THEN conjunct1] v1
  have w2: "set_dac (Fastino_init 3 0) exact_float 5 1 [Output 1 2] =
     (Inr (), [Output 1 2] @ [Output (channel (Fastino_init 3 0) OR 5) 36045])"
    by blast
  note i3 = operations_atomic [where self = "Fastino_init 3 2" and fp = exact_float and dac = 6
      and voltages = "[1, - 1]" and s = "[Output 1 2]" and mus = "[36045, 29491]"]
  from i3 [THEN conjunct2, THEN conjunct2, THEN conjunct2, THEN conjunct2, THEN conjunct2, THEN conjunct2, THEN conjunct2, THEN conjunct2, THEN conjunct2, THEN conjunct2, THEN conjunct2, THEN conjunct2, THEN conjunct2, THEN conjunct1] vm ev al
  have w4: "set_group (Fastino_init 3 2) exact_float 6 [1, - 1] [Output 1 2] =
     (Inl (ValueError ''Group index LSBs must be zero''), [Output 1 2])"
    by blast
  note i4 = operations_atomic [where self = "Fastino_init 3 2" and fp = exact_float and dac = 4
      and voltages = "[1, 11]" and s = "[Output 1 2]"]
  from i4 [THEN conjunct2, THEN conjunct2, THEN conjunct2, THEN conjunct2, THEN conjunct2, THEN conjunct2, THEN conjunct2, THEN conjunct2, THEN conjunct2, THEN conjunct2, THEN conjunct2, THEN conjunct1] bad
  obtain e where e: "set_group (Fastino_init 3 2) exact_float 4 [1, 11] [Output 1 2] =
      (Inl e, [Output 1 2])" "\<exists>x\<in>set [1, 11 :: rat]. voltage_to_mu exact_float x = Inl e"
    by blast
  from e(2) have "e = ValueError ''DAC voltage out of bounds''"
    by (simp add: v1 v11)
  with e(1) have w5: "set_group (Fastino_init 3 2) exact_float 4 [1, 11] [Output 1 2] =
     (Inl (ValueError ''DAC voltage out of bounds''), [Output 1 2])"
    by simp
  from w1 w2 w3 w4 w5 show ?thesis by blast
qed

text \<open>
  Claim C10. \<open>set_dac_mu\<close> and \<open>set_dac\<close> do not check the channel index: for every
  \<open>dac\<close> the write goes to \<open>(channel_base << 8) | dac\<close>, so \<open>set_dac_mu(0x20, data)\<close>
  is the same write as \<open>update(data)\<close>.
\<close>

theorem unchecked_dac_index:
  "set_dac_mu (Fastino_init chan log2_width) dac data s =
     (Inr (), s @ [Output (push_bit 8 chan OR dac) data]) \<and>
   set_dac (Fastino_init chan log2_width) fp dac voltage s =
     (case voltage_to_mu fp voltage of
        Inl e \<Rightarrow> (Inl e, s)
      | Inr d \<Rightarrow> (Inr (), s @ [Output (push_bit 8 chan OR dac) d])) \<and>
   set_dac_mu (Fastino_init chan log2_width) 0x20 data s =
     update (Fastino_init chan log2_width) data s"
  by (simp add: set_dac_mu_def set_dac_def update_def write_reg_Fastino_init split: sum.splits)

theorem unchecked_dac_index_witness:
  "set_dac_mu (Fastino_init 3 0) 0x20 5 [] = (Inr (), [Output 800 5]) \<and>
   update (Fastino_init 3 0) 5 [] = (Inr (), [Output 800 5]) \<and>
   set_dac (Fastino_init 3 0) exact_float 0x27 1 [] = (Inr (), [Output 807 36045]) \<and>
   set_dac_mu (Fastino_init 3 0) (- 1) 5 [] = (Inr (), [Output (- 1) 5])"
proof -
  have v: "voltage_to_mu exact_float 1 = Inr 36045" by code_simp
  show ?thesis
    using unchecked_dac_index [of 3 0 "0x20" 5 "[]" exact_float 1]
      unchecked_dac_index [of 3 0 "0x27" 5 "[]" exact_float 1]
      unchecked_dac_index [of 3 0 "-1" 5 "[]" exact_float 1]
    by (simp add: v push_bit_eq_mult)
qed

end
